theory Spec2Isabelle
  imports Complex_Main "HOL-Library.Log_Nat"
begin

text \<open>
  The client of a multiplayer world viewer (\<open>main.js\<close>): it keeps the local player and the
  remote players in step with the server's messages, moves the displayed remote players
  toward their reported positions on every frame, derives the camera from the local
  position, and turns held keys and clicks into move commands. The handlers are embedded
  as functions on the module's variables; loading and drawing of images, the minimap and
  the chat panel are left out.
\<close>

section \<open>JavaScript values\<close>

subsection \<open>Numbers\<close>

text \<open>
  A JavaScript Number is an IEEE 754 binary64 value. A finite one is a real number
  that \<open>fl\<close> leaves fixed, where \<open>fl\<close> rounds a real to the nearest binary64 value,
  ties to the even significand: 53 significant bits down to the exponent \<open>-1022\<close>,
  multiples of \<open>2 powi (-1074)\<close> below (the subnormals). Every arithmetic operator of
  the language computes the exact result and rounds it with \<open>fl\<close>. Negative zero is
  identified with zero. Rounding to an infinity, which IEEE does from \<open>2 ^ 1024\<close> on,
  is not part of \<open>fl\<close>: the numbers it is applied to below are coordinates, bounded in
  magnitude by \<open>2 ^ 32\<close>.
\<close>

definition round_even :: "real \<Rightarrow> int" where
  "round_even z =
     (let f = \<lfloor>z\<rfloor>; d = z - of_int f
      in if d < 1/2 then f else if 1/2 < d then f + 1 else if even f then f else f + 1)"

text \<open>The binary exponent \<open>e\<close> of a nonzero real: \<open>2 powi e \<le> \<bar>r\<bar> < 2 powi (e + 1)\<close>.\<close>

definition expo :: "real \<Rightarrow> int" where
  "expo r = (if 1 \<le> \<bar>r\<bar> then bitlen \<lfloor>\<bar>r\<bar>\<rfloor> - 1 else - bitlen (\<lceil>1 / \<bar>r\<bar>\<rceil> - 1))"

text \<open>The spacing of the binary64 values around \<open>r\<close>.\<close>

definition ulp :: "real \<Rightarrow> real" where
  "ulp r = 2 powi (max (expo r) (- 1022) - 52)"

definition fl :: "real \<Rightarrow> real" where
  "fl r = (if r = 0 then 0 else of_int (round_even (r / ulp r)) * ulp r)"

definition is_double :: "real \<Rightarrow> bool" where
  "is_double r \<longleftrightarrow> fl r = r"

datatype number = Fin real | PosInf | NegInf | NaN

subsection \<open>Values on the wire\<close>

text \<open>
  The scalar values that \<open>JSON.parse\<close> yields for a field, with \<open>JUndefined\<close> for a
  field that is absent. Objects and arrays in the place of a scalar are outside the model.
  A number of a message is finite, or an infinity when its literal is too large.
\<close>

datatype jsval = JUndefined | JNull | JBool bool | JNumber number | JString string

text \<open>
  \<open>ToNumber\<close> of the language. The conversion of a string (\<open>StringToNumber\<close>) is a
  built-in of the runtime and is a parameter here.
\<close>

fun ToNumber :: "(string \<Rightarrow> number) \<Rightarrow> jsval \<Rightarrow> number" where
  "ToNumber StringToNumber JUndefined = NaN"
| "ToNumber StringToNumber JNull = Fin 0"
| "ToNumber StringToNumber (JBool b) = Fin (if b then 1 else 0)"
| "ToNumber StringToNumber (JNumber n) = n"
| "ToNumber StringToNumber (JString s) = StringToNumber s"

definition js_trunc :: "real \<Rightarrow> int" where
  "js_trunc r = (if 0 \<le> r then \<lfloor>r\<rfloor> else \<lceil>r\<rceil>)"

definition wrap32 :: "int \<Rightarrow> int" where
  "wrap32 n = (let m = n mod 2 ^ 32 in if 2 ^ 31 \<le> m then m - 2 ^ 32 else m)"

fun ToInt32 :: "number \<Rightarrow> int" where
  "ToInt32 (Fin r) = wrap32 (js_trunc r)"
| "ToInt32 PosInf = 0"
| "ToInt32 NegInf = 0"
| "ToInt32 NaN = 0"

text \<open>The expression \<open>v | 0\<close>: both operands go through \<open>ToInt32\<close>, and \<open>n | 0 = n\<close>.\<close>

definition bitor0 :: "(string \<Rightarrow> number) \<Rightarrow> jsval \<Rightarrow> int" where
  "bitor0 StringToNumber v = ToInt32 (ToNumber StringToNumber v)"

fun ToBoolean :: "jsval \<Rightarrow> bool" where
  "ToBoolean JUndefined = False"
| "ToBoolean JNull = False"
| "ToBoolean (JBool b) = b"
| "ToBoolean (JNumber n) = (case n of Fin r \<Rightarrow> r \<noteq> 0 | NaN \<Rightarrow> False | _ \<Rightarrow> True)"
| "ToBoolean (JString s) = (s \<noteq> [])"

text \<open>The expression \<open>a || b\<close>.\<close>

definition js_or :: "jsval \<Rightarrow> jsval \<Rightarrow> jsval" where
  "js_or a b = (if ToBoolean a then a else b)"

text \<open>\<open>Math.round\<close> on a finite number: the nearest integer, ties upwards.\<close>

definition Math_round :: "real \<Rightarrow> int" where
  "Math_round r = \<lfloor>r + 1/2\<rfloor>"

text \<open>
  A player identifier: a string when the server gives one, \<open>null\<close> as \<open>state.me.id\<close>
  starts, \<open>undefined\<close> when the field is absent. \<open>key_of\<close> is the property key the
  identifier selects in \<open>obj[id]\<close>.
\<close>

datatype ident = IdUndefined | IdNull | IdString string

fun key_of :: "ident \<Rightarrow> string" where
  "key_of IdUndefined = ''undefined''"
| "key_of IdNull = ''null''"
| "key_of (IdString s) = s"

section \<open>Data model\<close>

record world_t =
  world_width :: int
  world_height :: int
  world_ready :: bool

record me_t =
  me_id :: ident
  me_username :: string
  me_x :: int
  me_y :: int
  me_facing :: jsval
  me_animationFrame :: int
  me_avatarName :: jsval
  me_ready :: bool
  hasServerPosition :: bool

text \<open>
  An entry of \<open>state.otherPlayers.byId\<close>. The displayed position is advanced every frame
  in binary64 arithmetic, so it is a real; the targets are read with
  \<open>!== undefined\<close> before use, so they are optional.
\<close>

record remote_player =
  rp_id :: ident
  rp_x :: real
  rp_y :: real
  rp_facing :: jsval
  rp_animationFrame :: int
  rp_username :: jsval
  rp_avatarName :: jsval
  targetX :: "real option"
  targetY :: "real option"
  lastUpdate :: int

record viewport_t =
  vp_width :: int
  vp_height :: int
  cameraX :: int
  cameraY :: int

datatype direction = Up | Down | Left | Right

text \<open>
  The five properties that the \<open>players_moved\<close> branch assigns to the object it finds
  under an identifier. When that object is not a remote player of the map (see
  \<open>byId_get\<close> below) they become properties of \<open>Object.prototype\<close> or of one of its
  member functions.
\<close>

record written =
  w_targetX :: int
  w_targetY :: int
  w_facing :: jsval
  w_animationFrame :: int
  w_lastUpdate :: int

text \<open>
  The module's variables, and the objects of the runtime that its handlers can reach
  through a property lookup. \<open>byId\<close> holds the own properties of
  \<open>state.otherPlayers.byId\<close>; \<open>byIdPrototype\<close> is the prototype of that object when an
  assignment to its \<open>__proto__\<close> has replaced \<open>Object.prototype\<close>;
  \<open>objectPrototype\<close> holds what has been written onto \<open>Object.prototype\<close>, and
  \<open>memberProperties\<close> what has been written onto its member functions, by member name.
  \<open>movementLoopId\<close> is \<open>True\<close> while it holds a timer handle.
  \<open>joinsAwaitingCache\<close> is not a variable of the source: it counts the \<open>join_game\<close>
  handlers suspended at their \<open>await\<close> of the avatar cache. The avatar cache, the canvas
  and the page's widgets are collaborators and carry no state here.
\<close>

record game_state =
  world :: world_t
  me :: me_t
  byId :: "string \<rightharpoonup> remote_player"
  viewport :: viewport_t
  keysPressed :: "direction \<Rightarrow> bool"
  movementLoopId :: bool
  lastMoveTime :: int
  canSendMoveCommands :: bool
  joinsAwaitingCache :: nat
  byIdPrototype :: "remote_player option"
  objectPrototype :: "written option"
  memberProperties :: "string \<rightharpoonup> written"

definition init :: game_state where
  "init = \<lparr>
     world = \<lparr>world_width = 0, world_height = 0, world_ready = False\<rparr>,
     me = \<lparr>me_id = IdNull, me_username = ''Tim'', me_x = 1024, me_y = 1024,
            me_facing = JString ''south'', me_animationFrame = 0, me_avatarName = JNull,
            me_ready = False, hasServerPosition = False\<rparr>,
     byId = Map.empty,
     viewport = \<lparr>vp_width = 0, vp_height = 0, cameraX = 0, cameraY = 0\<rparr>,
     keysPressed = (\<lambda>d. False),
     movementLoopId = False,
     lastMoveTime = 0,
     canSendMoveCommands = False,
     joinsAwaitingCache = 0,
     byIdPrototype = None,
     objectPrototype = None,
     memberProperties = Map.empty\<rparr>"

text \<open>What a handler reads from its surroundings: \<open>Date.now()\<close> and whether
  \<open>ws && ws.readyState === WebSocket.OPEN\<close>.\<close>

record env =
  now :: int
  ws_open :: bool

subsection \<open>Messages\<close>

text \<open>A player object of the server, every field possibly absent or of any scalar type.\<close>

record player_data =
  pd_id :: ident
  pd_x :: jsval
  pd_y :: jsval
  pd_facing :: jsval
  pd_animationFrame :: jsval
  pd_username :: jsval
  pd_avatar :: jsval

datatype avatar = Avatar jsval

text \<open>
  Inbound messages by \<open>action\<close>: \<open>join_game\<close> with \<open>success\<close>, \<open>playerId\<close> and
  \<open>players\<close>; \<open>players_moved\<close> with \<open>players\<close>; \<open>player_joined\<close> with \<open>player\<close>
  and \<open>avatar\<close>; \<open>player_left\<close> with \<open>playerId\<close>; \<open>chat\<close> with \<open>username\<close> and
  \<open>message\<close>. A \<open>players\<close> object is the list of its \<open>Object.entries\<close> (each key
  once, each value a player object), \<open>None\<close> when the field is absent. The avatar
  catalogue of \<open>join_game\<close> only feeds the avatar cache and is left out.
  \<open>Unrecognized\<close> stands for a payload that does not parse or has none of the five
  actions.
\<close>

datatype message =
    JoinGame jsval ident "(string \<times> player_data) list option"
  | PlayersMoved "(string \<times> player_data) list option"
  | PlayerJoined "player_data option" "avatar option"
  | PlayerLeft ident
  | Chat jsval jsval
  | Unrecognized

text \<open>Outbound messages.\<close>

datatype command =
    JoinGameCmd string
  | MoveDirection direction
  | MoveTo int int
  | Stop
  | ChatCmd string

section \<open>Camera\<close>

text \<open>
  The sizes of the window and of the world image are integers, and so is the local
  position (\<open>1024\<close> at first, then some \<open>value | 0\<close>): the camera is computed on
  integers, which binary64 arithmetic does exactly at these magnitudes.
\<close>

definition clamp :: "int \<Rightarrow> int \<Rightarrow> int \<Rightarrow> int" where
  "clamp v lo hi = max lo (min hi v)"

definition updateCamera :: "game_state \<Rightarrow> game_state" where
  "updateCamera s =
     (if \<not> world_ready (world s) \<or> world_width (world s) = 0 \<or> world_height (world s) = 0
         \<or> \<not> hasServerPosition (me s)
      then s
      else
        let vw = vp_width (viewport s); vh = vp_height (viewport s);
            ww = world_width (world s); wh = world_height (world s);
            desiredX = me_x (me s) - \<lfloor>real_of_int vw / 2\<rfloor>;
            desiredY = me_y (me s) - \<lfloor>real_of_int vh / 2\<rfloor>;
            maxX = max 0 (ww - vw);
            maxY = max 0 (wh - vh)
        in s\<lparr>viewport := (viewport s)\<lparr>cameraX := clamp desiredX 0 maxX,
                                       cameraY := clamp desiredY 0 maxY\<rparr>\<rparr>)"

definition resizeCanvas :: "int \<Rightarrow> int \<Rightarrow> game_state \<Rightarrow> game_state" where
  "resizeCanvas innerWidth innerHeight s =
     updateCamera (s\<lparr>viewport := (viewport s)\<lparr>vp_width := innerWidth, vp_height := innerHeight\<rparr>\<rparr>)"

section \<open>Interpolation of remote players\<close>

text \<open>The literal \<open>0.1\<close> denotes the binary64 value nearest to one tenth.\<close>

definition interpolationSpeed :: real where
  "interpolationSpeed = fl (1/10)"

text \<open>One axis of \<open>player.x += dx * interpolationSpeed\<close>, with \<open>dx = target - x\<close>.\<close>

definition approach :: "real \<Rightarrow> real \<Rightarrow> real" where
  "approach x t = fl (x + fl (fl (t - x) * interpolationSpeed))"

text \<open>The body of the loop over \<open>Object.values(state.otherPlayers.byId)\<close>.\<close>

definition interpolate :: "remote_player \<Rightarrow> remote_player" where
  "interpolate player =
     (case (targetX player, targetY player) of
        (Some tx, Some ty) \<Rightarrow>
          (let dx = fl (tx - rp_x player); dy = fl (ty - rp_y player)
           in if 1/2 < \<bar>dx\<bar> \<or> 1/2 < \<bar>dy\<bar>
              then player\<lparr>rp_x := approach (rp_x player) tx, rp_y := approach (rp_y player) ty\<rparr>
              else player\<lparr>rp_x := tx, rp_y := ty\<rparr>)
      | _ \<Rightarrow> player)"

definition updatePlayerInterpolation :: "game_state \<Rightarrow> game_state" where
  "updatePlayerInterpolation s = s\<lparr>byId := (\<lambda>k. map_option interpolate (byId s k))\<rparr>"

definition render :: "game_state \<Rightarrow> game_state" where
  "render s = (if \<not> world_ready (world s) then s else updatePlayerInterpolation s)"

section \<open>Input\<close>

definition keyMap :: "string \<Rightarrow> direction option" where
  "keyMap = map_of
     [(''ArrowUp'', Up), (''ArrowDown'', Down), (''ArrowLeft'', Left), (''ArrowRight'', Right),
      (''KeyW'', Up), (''KeyS'', Down), (''KeyA'', Left), (''KeyD'', Right)]"

definition handleKeyDown :: "string \<Rightarrow> game_state \<Rightarrow> game_state" where
  "handleKeyDown key s =
     (case keyMap key of
        Some direction \<Rightarrow>
          if \<not> keysPressed s direction then s\<lparr>keysPressed := (keysPressed s)(direction := True)\<rparr>
          else s
      | None \<Rightarrow> s)"

definition handleKeyUp :: "string \<Rightarrow> game_state \<Rightarrow> game_state" where
  "handleKeyUp key s =
     (case keyMap key of
        Some direction \<Rightarrow> s\<lparr>keysPressed := (keysPressed s)(direction := False)\<rparr>
      | None \<Rightarrow> s)"

text \<open>The click listener of the canvas: it sends, and changes no variable.\<close>

definition handleClick :: "env \<Rightarrow> real \<Rightarrow> real \<Rightarrow> real \<Rightarrow> real \<Rightarrow> game_state \<Rightarrow> command list" where
  "handleClick e clientX clientY rectLeft rectTop s =
     (if \<not> canSendMoveCommands s \<or> \<not> ws_open e then []
      else
        let clickX = fl (clientX - rectLeft);
            clickY = fl (clientY - rectTop);
            worldX = fl (clickX + of_int (cameraX (viewport s)));
            worldY = fl (clickY + of_int (cameraY (viewport s)))
        in [MoveTo (Math_round worldX) (Math_round worldY)])"

text \<open>
  The body of the timer loop. Every path ends by \<open>setTimeout\<close>, so \<open>movementLoopId\<close>
  holds a handle afterwards. \<open>Object.entries(keysPressed)\<close> lists up, down, left, right.
\<close>

definition movementLoop :: "env \<Rightarrow> game_state \<Rightarrow> game_state \<times> command list" where
  "movementLoop e s =
     (if \<not> ws_open e then (s\<lparr>movementLoopId := True\<rparr>, [])
      else
        let activeDirections = filter (keysPressed s) [Up, Down, Left, Right];
            hasActiveKeys = (activeDirections \<noteq> [])
        in if hasActiveKeys \<and> canSendMoveCommands s \<and> 100 \<le> now e - lastMoveTime s
           then (s\<lparr>lastMoveTime := now e, movementLoopId := True\<rparr>,
                 map MoveDirection activeDirections)
           else if \<not> hasActiveKeys \<and> canSendMoveCommands s
           then (s\<lparr>movementLoopId := True\<rparr>, [Stop])
           else (s\<lparr>movementLoopId := True\<rparr>, []))"

definition startMovementLoop :: "env \<Rightarrow> game_state \<Rightarrow> game_state \<times> command list" where
  "startMovementLoop e s = (if movementLoopId s then (s, []) else movementLoop e s)"

definition stopMovementLoop :: "game_state \<Rightarrow> game_state" where
  "stopMovementLoop s = s\<lparr>movementLoopId := False\<rparr>"

text \<open>The Enter key of the chat box, with the trimmed text of the box.\<close>

definition handleChatEnter :: "env \<Rightarrow> string \<Rightarrow> command list" where
  "handleChatEnter e message = (if message \<noteq> [] \<and> ws_open e then [ChatCmd message] else [])"

section \<open>Property lookup\<close>

text \<open>
  \<open>obj[key]\<close> and \<open>obj.name\<close> read an own property of the object or, when it has
  none of that name, what its prototype chain gives. The objects that \<open>JSON.parse\<close>
  builds and \<open>state.otherPlayers.byId\<close> are plain objects, so the chain ends in
  \<open>Object.prototype\<close>: its member functions, its accessor \<open>__proto__\<close> (which yields the
  prototype of the object read), and whatever the page has written onto it. The page
  writes through such a lookup in one place only, the loop of the \<open>players_moved\<close>
  branch, and only the five properties of \<open>written\<close>; so of the names it reads from a
  player object of the server, \<open>facing\<close> and \<open>animationFrame\<close> can be inherited, and
  \<open>x\<close>, \<open>y\<close>, \<open>id\<close>, \<open>username\<close> and \<open>avatar\<close> cannot. \<open>JSON.parse\<close> makes
  \<open>__proto__\<close> an own property like any other key. The script has no strict-mode
  directive: an assignment to a property of a primitive value is dropped.
\<close>

definition Object_prototype_functions :: "string list" where
  "Object_prototype_functions =
     [''constructor'', ''hasOwnProperty'', ''isPrototypeOf'', ''propertyIsEnumerable'',
      ''toLocaleString'', ''toString'', ''valueOf'', ''__defineGetter__'', ''__defineSetter__'',
      ''__lookupGetter__'', ''__lookupSetter__'']"

text \<open>
  What a lookup of a key finds when the result passes a truth test: an own property, the
  prototype of the object read (for \<open>__proto__\<close>), a member function of
  \<open>Object.prototype\<close>, or an inherited primitive value that is truthy. \<open>None\<close> stands
  for \<open>undefined\<close> and for an inherited primitive that is falsy.
\<close>

datatype 'a found = Own 'a | ThePrototype | Member string | Primitive

definition written_truthy :: "written \<Rightarrow> string \<Rightarrow> bool" where
  "written_truthy w k \<longleftrightarrow>
     k = ''targetX'' \<and> w_targetX w \<noteq> 0 \<or> k = ''targetY'' \<and> w_targetY w \<noteq> 0
     \<or> k = ''facing'' \<and> ToBoolean (w_facing w)
     \<or> k = ''animationFrame'' \<and> w_animationFrame w \<noteq> 0
     \<or> k = ''lastUpdate'' \<and> w_lastUpdate w \<noteq> 0"

text \<open>The lookup of a key other than \<open>__proto__\<close> on \<open>Object.prototype\<close> itself.\<close>

definition Object_prototype_get :: "game_state \<Rightarrow> string \<Rightarrow> 'a found option" where
  "Object_prototype_get s k =
     (if k \<in> set Object_prototype_functions then Some (Member k)
      else case objectPrototype s of
             None \<Rightarrow> None
           | Some w \<Rightarrow> if written_truthy w k then Some Primitive else None)"

text \<open>\<open>data.players[key]\<close>, for the entries \<open>ps\<close> of \<open>data.players\<close>.\<close>

definition players_get ::
  "game_state \<Rightarrow> (string \<times> player_data) list \<Rightarrow> string \<Rightarrow> player_data found option" where
  "players_get s ps k =
     (case map_of ps k of
        Some playerData \<Rightarrow> Some (Own playerData)
      | None \<Rightarrow> if k = ''__proto__'' then Some ThePrototype else Object_prototype_get s k)"

text \<open>
  The truth value of the own property of a remote player object named \<open>k\<close>, if it has
  one: such an object is the prototype of \<open>byId\<close> after an assignment to
  \<open>byId.__proto__\<close>.
\<close>

definition remote_field_truthy :: "remote_player \<Rightarrow> string \<Rightarrow> bool option" where
  "remote_field_truthy r k =
     (if k = ''id'' then Some (case rp_id r of IdString i \<Rightarrow> i \<noteq> [] | _ \<Rightarrow> False)
      else if k = ''x'' then Some (rp_x r \<noteq> 0)
      else if k = ''y'' then Some (rp_y r \<noteq> 0)
      else if k = ''facing'' then Some (ToBoolean (rp_facing r))
      else if k = ''animationFrame'' then Some (rp_animationFrame r \<noteq> 0)
      else if k = ''username'' then Some (ToBoolean (rp_username r))
      else if k = ''avatarName'' then Some (ToBoolean (rp_avatarName r))
      else if k = ''targetX'' then Some (case targetX r of Some t \<Rightarrow> t \<noteq> 0 | None \<Rightarrow> False)
      else if k = ''targetY'' then Some (case targetY r of Some t \<Rightarrow> t \<noteq> 0 | None \<Rightarrow> False)
      else if k = ''lastUpdate'' then Some (lastUpdate r \<noteq> 0)
      else None)"

text \<open>\<open>state.otherPlayers.byId[key]\<close>.\<close>

definition byId_get :: "game_state \<Rightarrow> string \<Rightarrow> remote_player found option" where
  "byId_get s k =
     (case byId s k of
        Some player \<Rightarrow> Some (Own player)
      | None \<Rightarrow>
          if k = ''__proto__'' then Some ThePrototype
          else case byIdPrototype s of
                 None \<Rightarrow> Object_prototype_get s k
               | Some r \<Rightarrow>
                   (case remote_field_truthy r k of
                      Some truthy \<Rightarrow> if truthy then Some Primitive else None
                    | None \<Rightarrow> Object_prototype_get s k))"

text \<open>
  \<open>state.otherPlayers.byId[key] = player\<close>: for \<open>__proto__\<close> the setter of
  \<open>Object.prototype\<close> makes the player the prototype of \<open>byId\<close>; any other key becomes
  an own property.
\<close>

definition byId_set :: "string \<Rightarrow> remote_player \<Rightarrow> game_state \<Rightarrow> game_state" where
  "byId_set k player s =
     (if k = ''__proto__'' then s\<lparr>byIdPrototype := Some player\<rparr>
      else s\<lparr>byId := (byId s)(k \<mapsto> player)\<rparr>)"

text \<open>\<open>facing\<close> and \<open>animationFrame\<close> as \<open>Object.prototype\<close> has them.\<close>

definition inherited_facing :: "game_state \<Rightarrow> jsval" where
  "inherited_facing s = (case objectPrototype s of None \<Rightarrow> JUndefined | Some w \<Rightarrow> w_facing w)"

definition inherited_animationFrame :: "game_state \<Rightarrow> jsval" where
  "inherited_animationFrame s =
     (case objectPrototype s of
        None \<Rightarrow> JUndefined
      | Some w \<Rightarrow> JNumber (Fin (of_int (w_animationFrame w))))"

text \<open>\<open>playerData.facing\<close> and \<open>playerData.animationFrame\<close> of a player object of the
  server.\<close>

definition wire_facing :: "game_state \<Rightarrow> player_data \<Rightarrow> jsval" where
  "wire_facing s playerData =
     (if pd_facing playerData = JUndefined then inherited_facing s else pd_facing playerData)"

definition wire_animationFrame :: "game_state \<Rightarrow> player_data \<Rightarrow> jsval" where
  "wire_animationFrame s playerData =
     (if pd_animationFrame playerData = JUndefined then inherited_animationFrame s
      else pd_animationFrame playerData)"

text \<open>The same two properties of a member function of \<open>Object.prototype\<close>.\<close>

definition member_facing :: "game_state \<Rightarrow> string \<Rightarrow> jsval" where
  "member_facing s k =
     (case memberProperties s k of None \<Rightarrow> inherited_facing s | Some w \<Rightarrow> w_facing w)"

definition member_animationFrame :: "game_state \<Rightarrow> string \<Rightarrow> jsval" where
  "member_animationFrame s k =
     (case memberProperties s k of
        None \<Rightarrow> inherited_animationFrame s
      | Some w \<Rightarrow> JNumber (Fin (of_int (w_animationFrame w))))"

text \<open>The properties read from what \<open>data.players[state.me.id]\<close> found.\<close>

fun found_x :: "player_data found \<Rightarrow> jsval" where
  "found_x (Own playerData) = pd_x playerData"
| "found_x other = JUndefined"

fun found_y :: "player_data found \<Rightarrow> jsval" where
  "found_y (Own playerData) = pd_y playerData"
| "found_y other = JUndefined"

fun found_avatar :: "player_data found \<Rightarrow> jsval" where
  "found_avatar (Own playerData) = pd_avatar playerData"
| "found_avatar other = JUndefined"

fun found_facing :: "game_state \<Rightarrow> player_data found \<Rightarrow> jsval" where
  "found_facing s (Own playerData) = wire_facing s playerData"
| "found_facing s (Member k) = member_facing s k"
| "found_facing s ThePrototype = inherited_facing s"
| "found_facing s Primitive = inherited_facing s"

fun found_animationFrame :: "game_state \<Rightarrow> player_data found \<Rightarrow> jsval" where
  "found_animationFrame s (Own playerData) = wire_animationFrame s playerData"
| "found_animationFrame s (Member k) = member_animationFrame s k"
| "found_animationFrame s ThePrototype = inherited_animationFrame s"
| "found_animationFrame s Primitive = inherited_animationFrame s"

section \<open>Message handlers\<close>

text \<open>The object literal stored for a new remote player.\<close>

definition new_remote ::
  "(string \<Rightarrow> number) \<Rightarrow> env \<Rightarrow> game_state \<Rightarrow> ident \<Rightarrow> player_data \<Rightarrow> remote_player" where
  "new_remote S2N e s pid playerData =
     \<lparr>rp_id = pid,
      rp_x = of_int (bitor0 S2N (pd_x playerData)),
      rp_y = of_int (bitor0 S2N (pd_y playerData)),
      rp_facing = js_or (wire_facing s playerData) (JString ''south''),
      rp_animationFrame = bitor0 S2N (wire_animationFrame s playerData),
      rp_username = pd_username playerData,
      rp_avatarName = pd_avatar playerData,
      targetX = Some (of_int (bitor0 S2N (pd_x playerData))),
      targetY = Some (of_int (bitor0 S2N (pd_y playerData))),
      lastUpdate = now e\<rparr>"

text \<open>One iteration of \<open>for (const [playerId, playerData] of Object.entries(data.players))\<close>
  in the \<open>join_game\<close> branch.\<close>

definition store_other ::
  "(string \<Rightarrow> number) \<Rightarrow> env \<Rightarrow> string \<times> player_data \<Rightarrow> game_state \<Rightarrow> game_state" where
  "store_other S2N e entry s =
     (case entry of (playerId, playerData) \<Rightarrow>
        if IdString playerId \<noteq> me_id (me s)
        then byId_set playerId (new_remote S2N e s (IdString playerId) playerData) s
        else s)"

text \<open>
  The \<open>join_game\<close> branch up to its \<open>await\<close>. A response with \<open>success === false\<close>
  returns at once; any other suspends the handler at the avatar cache.
\<close>

definition handle_join_game ::
  "(string \<Rightarrow> number) \<Rightarrow> env \<Rightarrow> jsval \<Rightarrow> ident \<Rightarrow> (string \<times> player_data) list option
     \<Rightarrow> game_state \<Rightarrow> game_state" where
  "handle_join_game S2N e success playerId players s =
     (if success = JBool False then s
      else
        let s1 = s\<lparr>me := (me s)\<lparr>me_id := playerId\<rparr>\<rparr>;
            meFromServer = (case players of None \<Rightarrow> None
                            | Some ps \<Rightarrow> players_get s1 ps (key_of (me_id (me s1))));
            s2 = (case meFromServer of
                    None \<Rightarrow> s1
                  | Some m \<Rightarrow>
                      s1\<lparr>me := (me s1)\<lparr>me_x := bitor0 S2N (found_x m),
                                        me_y := bitor0 S2N (found_y m),
                                        me_facing := js_or (found_facing s1 m) (JString ''south''),
                                        me_animationFrame := bitor0 S2N (found_animationFrame s1 m),
                                        me_avatarName := found_avatar m,
                                        hasServerPosition := True\<rparr>\<rparr>);
            s3 = (case players of None \<Rightarrow> s2 | Some ps \<Rightarrow> fold (store_other S2N e) ps s2)
        in s3\<lparr>joinsAwaitingCache := Suc (joinsAwaitingCache s3)\<rparr>)"

text \<open>
  The rest of the \<open>join_game\<close> branch, run when the avatar cache settles: \<open>cached\<close>
  tells whether it resolved (\<open>state.me.ready = true\<close>) or threw.
\<close>

definition resume_join_game :: "env \<Rightarrow> bool \<Rightarrow> game_state \<Rightarrow> game_state \<times> command list" where
  "resume_join_game e cached s =
     (let s1 = (if cached then s\<lparr>me := (me s)\<lparr>me_ready := True\<rparr>\<rparr> else s);
          s2 = updateCamera s1;
          s3 = s2\<lparr>canSendMoveCommands := True\<rparr>
      in startMovementLoop e s3)"

text \<open>
  The five assignments of the \<open>players_moved\<close> loop, \<open>player.targetX = playerUpdate.x | 0\<close>
  to \<open>player.lastUpdate = Date.now()\<close>: on a remote player object, and on
  \<open>Object.prototype\<close> or one of its member functions, whose \<open>facing\<close> so far is
  \<open>old_facing\<close>.
\<close>

definition assign_remote ::
  "(string \<Rightarrow> number) \<Rightarrow> env \<Rightarrow> game_state \<Rightarrow> player_data \<Rightarrow> remote_player \<Rightarrow> remote_player" where
  "assign_remote S2N e s playerUpdate player =
     player\<lparr>targetX := Some (of_int (bitor0 S2N (pd_x playerUpdate))),
            targetY := Some (of_int (bitor0 S2N (pd_y playerUpdate))),
            rp_facing := js_or (wire_facing s playerUpdate) (rp_facing player),
            rp_animationFrame := bitor0 S2N (wire_animationFrame s playerUpdate),
            lastUpdate := now e\<rparr>"

definition assign_written ::
  "(string \<Rightarrow> number) \<Rightarrow> env \<Rightarrow> game_state \<Rightarrow> player_data \<Rightarrow> jsval \<Rightarrow> written" where
  "assign_written S2N e s playerUpdate old_facing =
     \<lparr>w_targetX = bitor0 S2N (pd_x playerUpdate),
      w_targetY = bitor0 S2N (pd_y playerUpdate),
      w_facing = js_or (wire_facing s playerUpdate) old_facing,
      w_animationFrame = bitor0 S2N (wire_animationFrame s playerUpdate),
      w_lastUpdate = now e\<rparr>"

text \<open>
  One iteration of the loop over \<open>Object.entries(data.players)\<close> in the
  \<open>players_moved\<close> branch. The test \<open>state.otherPlayers.byId[playerId]\<close> passes for
  whatever the lookup finds, and \<open>player\<close> is that: a remote player of the map, the
  prototype of \<open>byId\<close>, a member function of \<open>Object.prototype\<close>, or a primitive.
\<close>

definition move_other ::
  "(string \<Rightarrow> number) \<Rightarrow> env \<Rightarrow> string \<times> player_data \<Rightarrow> game_state \<Rightarrow> game_state" where
  "move_other S2N e entry s =
     (case entry of (playerId, playerUpdate) \<Rightarrow>
        if IdString playerId \<noteq> me_id (me s) then
          (case byId_get s playerId of
             Some (Own player) \<Rightarrow>
               s\<lparr>byId := (byId s)(playerId \<mapsto> assign_remote S2N e s playerUpdate player)\<rparr>
           | Some ThePrototype \<Rightarrow>
               (case byIdPrototype s of
                  Some r \<Rightarrow> s\<lparr>byIdPrototype := Some (assign_remote S2N e s playerUpdate r)\<rparr>
                | None \<Rightarrow>
                    s\<lparr>objectPrototype :=
                        Some (assign_written S2N e s playerUpdate (inherited_facing s))\<rparr>)
           | Some (Member k) \<Rightarrow>
               s\<lparr>memberProperties := (memberProperties s)
                    (k \<mapsto> assign_written S2N e s playerUpdate (member_facing s k))\<rparr>
           | Some Primitive \<Rightarrow> s
           | None \<Rightarrow> s)
        else s)"

definition handle_players_moved ::
  "(string \<Rightarrow> number) \<Rightarrow> env \<Rightarrow> (string \<times> player_data) list option
     \<Rightarrow> game_state \<Rightarrow> game_state" where
  "handle_players_moved S2N e players s =
     (case players of
        None \<Rightarrow> s
      | Some ps \<Rightarrow>
          let s1 = (case players_get s ps (key_of (me_id (me s))) of
                      None \<Rightarrow> s
                    | Some myUpdate \<Rightarrow>
                        updateCamera
                          (s\<lparr>me := (me s)\<lparr>me_x := bitor0 S2N (found_x myUpdate),
                                           me_y := bitor0 S2N (found_y myUpdate),
                                           me_facing :=
                                             js_or (found_facing s myUpdate) (me_facing (me s)),
                                           me_animationFrame :=
                                             bitor0 S2N (found_animationFrame s myUpdate)\<rparr>\<rparr>))
          in fold (move_other S2N e) ps s1)"

definition handle_player_joined ::
  "(string \<Rightarrow> number) \<Rightarrow> env \<Rightarrow> player_data option \<Rightarrow> avatar option
     \<Rightarrow> game_state \<Rightarrow> game_state" where
  "handle_player_joined S2N e player avatar s =
     (case (player, avatar) of
        (Some p, Some a) \<Rightarrow> byId_set (key_of (pd_id p)) (new_remote S2N e s (pd_id p) p) s
      | _ \<Rightarrow> s)"

text \<open>\<open>delete\<close> removes an own property and nothing else.\<close>

definition handle_player_left :: "ident \<Rightarrow> game_state \<Rightarrow> game_state" where
  "handle_player_left playerId s =
     (case playerId of
        IdString k \<Rightarrow>
          if k \<noteq> [] \<and> byId_get s k \<noteq> None then s\<lparr>byId := (byId s)(k := None)\<rparr> else s
      | _ \<Rightarrow> s)"

text \<open>The chat branch appends to the chat panel, a collaborator, and nothing else.\<close>

definition handle_chat :: "jsval \<Rightarrow> jsval \<Rightarrow> game_state \<Rightarrow> game_state" where
  "handle_chat username message s = s"

fun handle_message ::
  "(string \<Rightarrow> number) \<Rightarrow> env \<Rightarrow> message \<Rightarrow> game_state \<Rightarrow> game_state" where
  "handle_message S2N e (JoinGame success playerId players) s =
     handle_join_game S2N e success playerId players s"
| "handle_message S2N e (PlayersMoved players) s = handle_players_moved S2N e players s"
| "handle_message S2N e (PlayerJoined player avatar) s = handle_player_joined S2N e player avatar s"
| "handle_message S2N e (PlayerLeft playerId) s = handle_player_left playerId s"
| "handle_message S2N e (Chat username message) s = handle_chat username message s"
| "handle_message S2N e Unrecognized s = s"

section \<open>Events\<close>

text \<open>
  Everything the page reacts to. The listeners for keys and clicks are installed by the
  \<open>onload\<close> handler of the world image, which also sets \<open>world.ready\<close>; the timer
  callback runs only while a timer is pending.
\<close>

datatype event =
    WorldLoaded int int int int
  | WindowResize int int
  | AnimationFrame
  | KeyDown string
  | KeyUp string
  | CanvasClick real real real real
  | ChatEnter string
  | MovementTimer
  | WsOpen
  | WsMessage message
  | AvatarsCached bool
  | WsClose
  | WsError

fun step ::
  "(string \<Rightarrow> number) \<Rightarrow> env \<Rightarrow> event \<Rightarrow> game_state \<Rightarrow> game_state \<times> command list" where
  "step S2N e (WorldLoaded w h innerWidth innerHeight) s =
     (resizeCanvas innerWidth innerHeight
        (s\<lparr>world := \<lparr>world_width = w, world_height = h, world_ready = True\<rparr>\<rparr>), [])"
| "step S2N e (WindowResize innerWidth innerHeight) s =
     (updateCamera (resizeCanvas innerWidth innerHeight s), [])"
| "step S2N e AnimationFrame s = (render s, [])"
| "step S2N e (KeyDown key) s = (if world_ready (world s) then handleKeyDown key s else s, [])"
| "step S2N e (KeyUp key) s = (if world_ready (world s) then handleKeyUp key s else s, [])"
| "step S2N e (CanvasClick clientX clientY rectLeft rectTop) s =
     (s, if world_ready (world s) then handleClick e clientX clientY rectLeft rectTop s else [])"
| "step S2N e (ChatEnter message) s =
     (s, if world_ready (world s) then handleChatEnter e message else [])"
| "step S2N e MovementTimer s = (if movementLoopId s then movementLoop e s else (s, []))"
| "step S2N e WsOpen s = (s, [JoinGameCmd (me_username (me s))])"
| "step S2N e (WsMessage m) s = (handle_message S2N e m s, [])"
| "step S2N e (AvatarsCached cached) s =
     (case joinsAwaitingCache s of
        0 \<Rightarrow> (s, [])
      | Suc n \<Rightarrow> resume_join_game e cached (s\<lparr>joinsAwaitingCache := n\<rparr>))"
| "step S2N e WsClose s = (stopMovementLoop s, [])"
| "step S2N e WsError s = (stopMovementLoop s, [])"

text \<open>
  An execution: the events in order, each with what its handler read from outside. The
  log has one entry per event, the time of the event and what it sent.
\<close>

fun run ::
  "(string \<Rightarrow> number) \<Rightarrow> (env \<times> event) list \<Rightarrow> game_state
     \<Rightarrow> game_state \<times> (int \<times> command list) list" where
  "run S2N [] s = (s, [])"
| "run S2N ((e, ev) # rest) s =
     (let (s1, out) = step S2N e ev s;
          (s2, sent) = run S2N rest s1
      in (s2, (now e, out) # sent))"

section \<open>Vocabulary of the properties\<close>

text \<open>A runtime whose \<open>StringToNumber\<close> finds no string numeric, for concrete executions.\<close>

definition no_numeric_strings :: "string \<Rightarrow> number" where
  "no_numeric_strings s = NaN"

text \<open>Everything of the state but the remote players and the runtime's objects.\<close>

definition erase_players :: "game_state \<Rightarrow> game_state" where
  "erase_players s = s\<lparr>byId := Map.empty, byIdPrototype := None, objectPrototype := None,
                         memberProperties := Map.empty\<rparr>"

subsection \<open>Move commands in a log\<close>

fun is_move :: "command \<Rightarrow> bool" where
  "is_move (MoveDirection d) = True"
| "is_move (MoveTo x y) = True"
| "is_move c = False"

fun is_direction_move :: "command \<Rightarrow> bool" where
  "is_direction_move (MoveDirection d) = True"
| "is_direction_move c = False"

text \<open>The times of the events that sent at least one command satisfying \<open>P\<close>: the bursts.\<close>

definition bursts :: "(command \<Rightarrow> bool) \<Rightarrow> (int \<times> command list) list \<Rightarrow> int list" where
  "bursts P sent = map fst (filter (\<lambda>entry. list_ex P (snd entry)) sent)"

text \<open>Every burst is at least 100 ms after each burst before it.\<close>

fun spaced :: "int list \<Rightarrow> bool" where
  "spaced [] = True"
| "spaced (t # ts) = ((\<forall>u \<in> set ts. 100 \<le> u - t) \<and> spaced ts)"

definition player42 :: player_data where
  "player42 = \<lparr>pd_id = IdString ''42'', pd_x = JNumber (Fin 100), pd_y = JNumber (Fin 200),
                pd_facing = JString ''south'', pd_animationFrame = JNumber (Fin 0),
                pd_username = JString ''Tim'', pd_avatar = JString ''a''\<rparr>"

text \<open>The page loads, connects and joins as player 42.\<close>

definition joined_trace :: "(env \<times> event) list" where
  "joined_trace =
    [(\<lparr>now = 0, ws_open = False\<rparr>, WorldLoaded 2048 2048 800 600),
     (\<lparr>now = 10, ws_open = True\<rparr>, WsOpen),
     (\<lparr>now = 20, ws_open = True\<rparr>,
        WsMessage (JoinGame (JBool True) (IdString ''42'') (Some [(''42'', player42)]))),
     (\<lparr>now = 30, ws_open = True\<rparr>, AvatarsCached True)]"

text \<open>Then two clicks 10 ms apart.\<close>

definition click_trace :: "(env \<times> event) list" where
  "click_trace = joined_trace @
    [(\<lparr>now = 1000, ws_open = True\<rparr>, CanvasClick 10 10 0 0),
     (\<lparr>now = 1010, ws_open = True\<rparr>, CanvasClick 20 20 0 0)]"

text \<open>Or the up arrow held down while the timer fires every 50 ms.\<close>

definition key_trace :: "(env \<times> event) list" where
  "key_trace = joined_trace @
    [(\<lparr>now = 180, ws_open = True\<rparr>, KeyDown ''ArrowUp''),
     (\<lparr>now = 200, ws_open = True\<rparr>, MovementTimer),
     (\<lparr>now = 250, ws_open = True\<rparr>, MovementTimer),
     (\<lparr>now = 300, ws_open = True\<rparr>, MovementTimer)]"

text \<open>The page loads and connects, the join is refused; keys, timer and clicks follow.\<close>

definition refused_trace :: "(env \<times> event) list" where
  "refused_trace =
    [(\<lparr>now = 0, ws_open = False\<rparr>, WorldLoaded 2048 2048 800 600),
     (\<lparr>now = 10, ws_open = True\<rparr>, WsOpen),
     (\<lparr>now = 20, ws_open = True\<rparr>, WsMessage (JoinGame (JBool False) IdUndefined None)),
     (\<lparr>now = 180, ws_open = True\<rparr>, KeyDown ''ArrowUp''),
     (\<lparr>now = 200, ws_open = True\<rparr>, MovementTimer),
     (\<lparr>now = 1000, ws_open = True\<rparr>, CanvasClick 10 10 0 0)]"

subsection \<open>The position of the local player\<close>

definition position :: "game_state \<Rightarrow> int \<times> int" where
  "position s = (me_x (me s), me_y (me s))"

fun carries_position :: "event \<Rightarrow> bool" where
  "carries_position (WsMessage (JoinGame success playerId players)) = True"
| "carries_position (WsMessage (PlayersMoved players)) = True"
| "carries_position ev = False"

text \<open>The state after the join of player 42.\<close>

definition joined :: game_state where
  "joined = fst (run no_numeric_strings joined_trace init)"

subsection \<open>Position updates\<close>

definition player7 :: player_data where
  "player7 = \<lparr>pd_id = IdString ''7'', pd_x = JNumber (Fin 300), pd_y = JNumber (Fin 400),
                pd_facing = JString ''east'', pd_animationFrame = JNumber (Fin 1),
                pd_username = JString ''Ann'', pd_avatar = JString ''b''\<rparr>"

text \<open>The page joins as player 42 while player 7 is in the game.\<close>

definition two_players_trace :: "(env \<times> event) list" where
  "two_players_trace =
    [(\<lparr>now = 0, ws_open = False\<rparr>, WorldLoaded 2048 2048 800 600),
     (\<lparr>now = 10, ws_open = True\<rparr>, WsOpen),
     (\<lparr>now = 20, ws_open = True\<rparr>,
        WsMessage (JoinGame (JBool True) (IdString ''42'')
          (Some [(''42'', player42), (''7'', player7)]))),
     (\<lparr>now = 30, ws_open = True\<rparr>, AvatarsCached True)]"

definition two_players :: game_state where
  "two_players = fst (run no_numeric_strings two_players_trace init)"

text \<open>An update whose \<open>x\<close> is \<open>true\<close> and whose \<open>y\<close> is absent.\<close>

definition odd_update :: player_data where
  "odd_update = \<lparr>pd_id = IdUndefined, pd_x = JBool True, pd_y = JUndefined,
                  pd_facing = JUndefined, pd_animationFrame = JNumber (Fin (5/2)),
                  pd_username = JUndefined, pd_avatar = JUndefined\<rparr>"

definition odd_moved :: game_state where
  "odd_moved = handle_players_moved no_numeric_strings \<lparr>now = 50, ws_open = True\<rparr>
     (Some [(''42'', odd_update), (''7'', odd_update)]) two_players"

text \<open>
  An update under the key \<open>__proto__\<close>, as
  \<open>{"action":"players_moved","players":{"__proto__":{"x":300,"y":400,"facing":"east","animationFrame":2}}}\<close>
  carries it, and the state after it.
\<close>

definition proto_update :: player_data where
  "proto_update = \<lparr>pd_id = IdUndefined, pd_x = JNumber (Fin 300), pd_y = JNumber (Fin 400),
                    pd_facing = JString ''east'', pd_animationFrame = JNumber (Fin 2),
                    pd_username = JUndefined, pd_avatar = JUndefined\<rparr>"

definition polluted :: game_state where
  "polluted = handle_players_moved no_numeric_strings \<lparr>now = 50, ws_open = True\<rparr>
     (Some [(''__proto__'', proto_update)]) two_players"

text \<open>An update that carries a position and nothing else.\<close>

definition bare_update :: player_data where
  "bare_update = \<lparr>pd_id = IdUndefined, pd_x = JNumber (Fin 310), pd_y = JNumber (Fin 400),
                   pd_facing = JUndefined, pd_animationFrame = JUndefined,
                   pd_username = JUndefined, pd_avatar = JUndefined\<rparr>"

subsection \<open>Remote players\<close>

text \<open>
  The coordinates the handlers produce: binary64 values of magnitude at most \<open>2 ^ 31\<close>.
  Every stored target is some \<open>value | 0\<close>, every displayed coordinate starts as one and
  moves between itself and its target; \<open>players_wf\<close> is shown below for every reachable
  state.
\<close>

definition coord_ok :: "real \<Rightarrow> bool" where
  "coord_ok r \<longleftrightarrow> is_double r \<and> \<bar>r\<bar> \<le> 2 ^ 31"

definition rp_wf :: "remote_player \<Rightarrow> bool" where
  "rp_wf p \<longleftrightarrow> coord_ok (rp_x p) \<and> coord_ok (rp_y p)
     \<and> (case targetX p of None \<Rightarrow> True | Some t \<Rightarrow> coord_ok t)
     \<and> (case targetY p of None \<Rightarrow> True | Some t \<Rightarrow> coord_ok t)"

definition players_wf :: "game_state \<Rightarrow> bool" where
  "players_wf s \<longleftrightarrow> (\<forall>k p. byId s k = Some p \<longrightarrow> rp_wf p)"

text \<open>Player 7 is reported 10 to the right of where it is displayed.\<close>

definition moved_trace :: "(env \<times> event) list" where
  "moved_trace = two_players_trace @
    [(\<lparr>now = 50, ws_open = True\<rparr>,
        WsMessage (PlayersMoved (Some [(''7'', player7\<lparr>pd_x := JNumber (Fin 310)\<rparr>)])))]"

text \<open>A remote player displayed a quarter of a pixel from its target.\<close>

definition near_player :: remote_player where
  "near_player = \<lparr>rp_id = IdString ''7'', rp_x = 1201/4, rp_y = 400,
                   rp_facing = JString ''east'', rp_animationFrame = 1,
                   rp_username = JString ''Ann'', rp_avatarName = JString ''b'',
                   targetX = Some 300, targetY = Some 400, lastUpdate = 20\<rparr>"

definition near_state :: game_state where
  "near_state = init\<lparr>byId := [''7'' \<mapsto> near_player]\<rparr>"

text \<open>States for the camera: a local position outside the world, and the scenario of the
  specification.\<close>

definition off_world :: game_state where
  "off_world = init\<lparr>world := \<lparr>world_width = 2048, world_height = 2048, world_ready = True\<rparr>,
                   me := (me init)\<lparr>me_x := - 50, me_y := 5000, hasServerPosition := True\<rparr>,
                   viewport := (viewport init)\<lparr>vp_width := 800, vp_height := 600\<rparr>\<rparr>"

definition scenario :: game_state where
  "scenario = init\<lparr>world := \<lparr>world_width = 2048, world_height = 2048, world_ready = True\<rparr>,
                   me := (me init)\<lparr>me_x := 1024, me_y := 1024, hasServerPosition := True\<rparr>,
                   viewport := (viewport init)\<lparr>vp_width := 800, vp_height := 600\<rparr>\<rparr>"

text \<open>
  States whose camera is at (7, 9) and is not to be recomputed: a loaded world of 2048 by
  2048 in a viewport of 800 by 600 with the local player at (1024, 1024) but no position
  from the server yet; the same with a position but a world image of height 0; and the
  same with a position but the world not ready.
\<close>

definition unplaced :: game_state where
  "unplaced = init\<lparr>world := \<lparr>world_width = 2048, world_height = 2048, world_ready = True\<rparr>,
                   viewport := \<lparr>vp_width = 800, vp_height = 600, cameraX = 7, cameraY = 9\<rparr>\<rparr>"

definition flat_world :: game_state where
  "flat_world = unplaced\<lparr>world := \<lparr>world_width = 2048, world_height = 0, world_ready = True\<rparr>,
                        me := (me unplaced)\<lparr>hasServerPosition := True\<rparr>\<rparr>"

definition unloaded :: game_state where
  "unloaded = unplaced\<lparr>world := \<lparr>world_width = 2048, world_height = 2048, world_ready = False\<rparr>,
                      me := (me unplaced)\<lparr>hasServerPosition := True\<rparr>\<rparr>"

section \<open>Properties of rounding\<close>

lemma round_even_floor: "\<lfloor>z\<rfloor> \<le> round_even z" "round_even z \<le> \<lfloor>z\<rfloor> + 1"
  by (simp_all add: round_even_def Let_def)

lemma round_even_of_int: "round_even (of_int n) = n"
  by (simp add: round_even_def)

lemma round_even_mono:
  assumes "a \<le> b" shows "round_even a \<le> round_even b"
proof (cases "\<lfloor>a\<rfloor> = \<lfloor>b\<rfloor>")
  case True
  with assms show ?thesis by (auto simp: round_even_def Let_def)
next
  case False
  with assms have "\<lfloor>a\<rfloor> + 1 \<le> \<lfloor>b\<rfloor>" using floor_mono [of a b] by linarith
  with round_even_floor(2) [of a] round_even_floor(1) [of b] show ?thesis by linarith
qed

lemma round_even_err: "\<bar>of_int (round_even z) - z\<bar> \<le> 1/2"
  by (auto simp: round_even_def Let_def)

lemma round_even_minus: "round_even (- z) = - round_even z"
proof (cases "z = of_int \<lfloor>z\<rfloor>")
  case True
  then obtain n where "z = of_int n" ..
  then show ?thesis using round_even_of_int [of "- n"] round_even_of_int [of n] by simp
next
  case False
  then have "\<lfloor>- z\<rfloor> = - \<lfloor>z\<rfloor> - 1"
    by (metis ceiling_altdef ceiling_def add_diff_cancel_right' minus_diff_eq
        uminus_add_conv_diff neg_equal_iff_equal)
  then show ?thesis by (auto simp: round_even_def Let_def)
qed

lemma round_even_le_twice:
  assumes "0 \<le> z" shows "of_int (round_even z) \<le> 2 * z"
proof -
  have f0: "0 \<le> \<lfloor>z\<rfloor>" using assms by simp
  have fz: "of_int \<lfloor>z\<rfloor> \<le> z" by simp
  show ?thesis
  proof (cases "\<lfloor>z\<rfloor> = 0")
    case True
    then show ?thesis using assms by (auto simp: round_even_def Let_def)
  next
    case False
    with f0 have "1 \<le> \<lfloor>z\<rfloor>" by linarith
    then have "(1::real) \<le> of_int \<lfloor>z\<rfloor>" by linarith
    moreover have "of_int (round_even z) \<le> of_int \<lfloor>z\<rfloor> + (1::real)"
      using round_even_floor(2) [of z] by linarith
    ultimately show ?thesis using fz by linarith
  qed
qed

lemma expo_bounds:
  assumes "r \<noteq> 0"
  shows "2 powi expo r \<le> \<bar>r\<bar>" and "\<bar>r\<bar> < 2 powi (expo r + 1)"
proof -
  have "2 powi expo r \<le> \<bar>r\<bar> \<and> \<bar>r\<bar> < 2 powi (expo r + 1)"
  proof (cases "1 \<le> \<bar>r\<bar>")
    case True
    define m where "m = \<lfloor>\<bar>r\<bar>\<rfloor>"
    have m1: "1 \<le> m" using True by (simp add: m_def le_floor_iff)
    then have bl: "1 \<le> bitlen m" by (simp add: bitlen_alt_def)
    have e: "expo r = bitlen m - 1" using True by (simp add: expo_def m_def)
    from bitlen_bounds [of m] m1
    have b: "2 ^ nat (bitlen m - 1) \<le> m" "m < 2 ^ nat (bitlen m)" by auto
    have "(2::real) powi expo r = 2 ^ nat (bitlen m - 1)"
      using bl by (simp add: e power_int_def)
    also have "\<dots> = of_int (2 ^ nat (bitlen m - 1))" by simp
    also have "\<dots> \<le> of_int m" using b(1) by (simp only: of_int_le_iff)
    also have "\<dots> \<le> \<bar>r\<bar>" by (simp add: m_def)
    finally have lo: "2 powi expo r \<le> \<bar>r\<bar>" .
    have "\<bar>r\<bar> < of_int (m + 1)" by (simp add: m_def)
    also have "\<dots> \<le> of_int (2 ^ nat (bitlen m))"
      using b(2) by (simp only: of_int_le_iff)
    also have "\<dots> = 2 powi (expo r + 1)"
      using bl by (simp add: e power_int_def)
    finally show ?thesis using lo by simp
  next
    case False
    define u where "u = 1 / \<bar>r\<bar>"
    define m where "m = \<lceil>u\<rceil>"
    have r0: "0 < \<bar>r\<bar>" using assms by simp
    have u1: "1 < u" using False r0 by (simp add: u_def)
    then have m2: "2 \<le> m" by (simp add: m_def le_ceiling_iff)
    define k where "k = bitlen (m - 1)"
    have k1: "1 \<le> k" using m2 by (simp add: k_def bitlen_alt_def)
    have e: "expo r = - k" using False by (simp add: expo_def m_def u_def k_def)
    from bitlen_bounds [of "m - 1"] m2
    have b: "2 ^ nat (k - 1) \<le> m - 1" "m - 1 < 2 ^ nat k" by (auto simp: k_def)
    have "u \<le> of_int m" by (simp add: m_def)
    also have "\<dots> \<le> of_int (2 ^ nat k)" using b(2) by (simp only: of_int_le_iff)
    finally have "u \<le> 2 ^ nat k" by simp
    then have "1 / 2 ^ nat k \<le> 1 / u" using u1 by (simp add: frac_le)
    then have lo: "2 powi expo r \<le> \<bar>r\<bar>"
      using k1 by (simp add: e power_int_def u_def field_simps)
    have "(2::real) ^ nat (k - 1) = of_int (2 ^ nat (k - 1))" by simp
    also have "\<dots> \<le> of_int (m - 1)" using b(1) by (simp only: of_int_le_iff)
    also have "\<dots> < u" unfolding m_def by linarith
    finally have "(2::real) ^ nat (k - 1) < u" .
    then have "1 / u < 1 / 2 ^ nat (k - 1)" by (simp add: frac_less2)
    then have hi: "\<bar>r\<bar> < 2 powi (expo r + 1)"
      using k1 by (auto simp add: e power_int_def u_def field_simps nat_diff_distrib)
    show ?thesis using lo hi by simp
  qed
  then show "2 powi expo r \<le> \<bar>r\<bar>" and "\<bar>r\<bar> < 2 powi (expo r + 1)" by simp_all
qed

lemma powi2_less_imp:
  assumes "(2::real) powi a < 2 powi b" shows "a < b"
proof (rule ccontr)
  assume "\<not> a < b"
  then have "b \<le> a" by simp
  then have "(2::real) powi b \<le> 2 powi a" by (rule power_int_increasing) simp
  with assms show False by simp
qed

lemma expo_unique:
  assumes "2 powi e \<le> \<bar>r\<bar>" and "\<bar>r\<bar> < 2 powi (e + 1)"
  shows "expo r = e"
proof -
  have "(0::real) < 2 powi e" by simp
  with assms(1) have "0 < \<bar>r\<bar>" by linarith
  then have r0: "r \<noteq> 0" by auto
  note b = expo_bounds [OF r0]
  have "(2::real) powi e < 2 powi (expo r + 1)" using assms(1) b(2) by linarith
  then have 1: "e < expo r + 1" by (rule powi2_less_imp)
  have "(2::real) powi expo r < 2 powi (e + 1)" using assms(2) b(1) by linarith
  then have 2: "expo r < e + 1" by (rule powi2_less_imp)
  from 1 2 show ?thesis by linarith
qed

lemma expo_minus: "expo (- r) = expo r"
  by (simp add: expo_def)

lemma expo_mono:
  assumes "a \<noteq> 0" and "\<bar>a\<bar> \<le> \<bar>b\<bar>" shows "expo a \<le> expo b"
proof -
  have b0: "b \<noteq> 0" using assms by auto
  have "(2::real) powi expo a < 2 powi (expo b + 1)"
    using expo_bounds(1) [OF assms(1)] expo_bounds(2) [OF b0] assms(2) by linarith
  then have "expo a < expo b + 1" by (rule powi2_less_imp)
  then show ?thesis by linarith
qed

lemma ulp_pos: "0 < ulp r"
  by (simp add: ulp_def)

lemma ulp_minus: "ulp (- r) = ulp r"
  by (simp add: ulp_def expo_minus)

lemma fl_minus: "fl (- r) = - fl r"
  by (simp add: fl_def ulp_minus round_even_minus)

lemma fl_zero: "fl 0 = 0"
  by (simp add: fl_def)

lemma fl_err: "\<bar>fl r - r\<bar> \<le> ulp r / 2"
proof (cases "r = 0")
  case True
  then show ?thesis using ulp_pos [of r] by (simp add: fl_def)
next
  case False
  define q where "q = ulp r"
  have q: "0 < q" by (simp add: q_def ulp_pos)
  have "fl r - r = (of_int (round_even (r / q)) - r / q) * q"
    using False q by (simp add: fl_def q_def field_simps)
  then have "\<bar>fl r - r\<bar> = \<bar>of_int (round_even (r / q)) - r / q\<bar> * q"
    using q by (simp add: abs_mult)
  also have "\<dots> \<le> (1/2) * q"
    using round_even_err [of "r / q"] q by (intro mult_right_mono) simp_all
  finally show ?thesis by (simp add: q_def)
qed

lemma fl_le_twice:
  assumes "0 \<le> r" shows "fl r \<le> 2 * r"
proof (cases "r = 0")
  case True
  then show ?thesis by (simp add: fl_def)
next
  case False
  define q where "q = ulp r"
  have q: "0 < q" by (simp add: q_def ulp_pos)
  have "0 \<le> r / q" using assms q by simp
  then have "of_int (round_even (r / q)) \<le> 2 * (r / q)" by (rule round_even_le_twice)
  then have "of_int (round_even (r / q)) * q \<le> 2 * (r / q) * q"
    using q by (intro mult_right_mono) simp_all
  then show ?thesis using False q by (simp add: fl_def q_def)
qed

lemma fl_nonneg:
  assumes "0 \<le> r" shows "0 \<le> fl r"
proof -
  have "0 \<le> r / ulp r" using assms ulp_pos [of r] by simp
  then have "round_even 0 \<le> round_even (r / ulp r)" by (rule round_even_mono)
  then have "0 \<le> round_even (r / ulp r)" using round_even_of_int [of 0] by simp
  then show ?thesis using ulp_pos [of r] by (simp add: fl_def)
qed

lemma powi2_shift: "b = a + int n \<Longrightarrow> (2::real) powi b = 2 ^ n * 2 powi a"
  by (simp add: power_int_add)

lemma ulp_split:
  "2 powi (max (expo r) (- 1022) + 1) = 2 ^ 53 * ulp r"
  "2 powi (max (expo r) (- 1022)) = 2 ^ 52 * ulp r"
proof -
  show "2 powi (max (expo r) (- 1022) + 1) = 2 ^ 53 * ulp r"
    unfolding ulp_def by (rule powi2_shift) simp
  show "2 powi (max (expo r) (- 1022)) = 2 ^ 52 * ulp r"
    unfolding ulp_def by (rule powi2_shift) simp
qed

lemma fl_upper:
  assumes "0 < r" shows "fl r \<le> 2 powi (max (expo r) (- 1022) + 1)"
proof -
  define q where "q = ulp r"
  have q: "0 < q" by (simp add: q_def ulp_pos)
  have r0: "r \<noteq> 0" using assms by simp
  have "r < 2 powi (expo r + 1)" using expo_bounds(2) [OF r0] assms by simp
  also have "\<dots> \<le> 2 powi (max (expo r) (- 1022) + 1)"
    by (rule power_int_increasing) simp_all
  also have "\<dots> = 2 ^ 53 * q" by (simp add: ulp_split q_def)
  finally have "r / q \<le> 2 ^ 53" using q by (simp add: field_simps)
  then have "r / q \<le> of_int (2 ^ 53)" by simp
  then have "round_even (r / q) \<le> round_even (of_int (2 ^ 53))" by (rule round_even_mono)
  then have "round_even (r / q) \<le> 2 ^ 53" by (simp only: round_even_of_int)
  then have "(of_int (round_even (r / q)) :: real) \<le> of_int (2 ^ 53)" by (simp only: of_int_le_iff)
  then have "of_int (round_even (r / q)) * q \<le> 2 ^ 53 * q"
    using q by (intro mult_right_mono) simp_all
  then show ?thesis using r0 by (simp add: fl_def ulp_split flip: q_def)
qed

lemma fl_lower:
  assumes "0 < r" and "- 1022 \<le> expo r" shows "2 powi expo r \<le> fl r"
proof -
  define q where "q = ulp r"
  have q: "0 < q" by (simp add: q_def ulp_pos)
  have r0: "r \<noteq> 0" using assms by simp
  have m: "max (expo r) (- 1022) = expo r" using assms(2) by simp
  have "2 ^ 52 * q = 2 powi expo r" using ulp_split(2) [of r] m by (simp add: q_def)
  also have "\<dots> \<le> r" using expo_bounds(1) [OF r0] assms by simp
  finally have "2 ^ 52 \<le> r / q" using q by (simp add: field_simps)
  then have "of_int (2 ^ 52) \<le> r / q" by simp
  then have "round_even (of_int (2 ^ 52)) \<le> round_even (r / q)" by (rule round_even_mono)
  then have "2 ^ 52 \<le> round_even (r / q)" by (simp only: round_even_of_int)
  then have "(of_int (2 ^ 52) :: real) \<le> of_int (round_even (r / q))" by (simp only: of_int_le_iff)
  then have "2 ^ 52 * q \<le> of_int (round_even (r / q)) * q"
    using q by (intro mult_right_mono) simp_all
  then show ?thesis using r0 ulp_split(2) [of r] m by (simp add: fl_def flip: q_def)
qed

lemma fl_mono_pos:
  assumes "0 < a" and "a \<le> b" shows "fl a \<le> fl b"
proof -
  have a0: "a \<noteq> 0" and b0: "b \<noteq> 0" and bp: "0 < b" using assms by auto
  have "expo a \<le> expo b" using expo_mono [of a b] assms by simp
  then have le: "max (expo a) (- 1022) \<le> max (expo b) (- 1022)" by simp
  show ?thesis
  proof (cases "max (expo a) (- 1022) = max (expo b) (- 1022)")
    case True
    then have u: "ulp a = ulp b" by (simp add: ulp_def)
    have "a / ulp b \<le> b / ulp b" using assms(2) ulp_pos [of b] by (simp add: divide_right_mono)
    then have "round_even (a / ulp b) \<le> round_even (b / ulp b)" by (rule round_even_mono)
    then have "(of_int (round_even (a / ulp b)) :: real) \<le> of_int (round_even (b / ulp b))"
      by (simp only: of_int_le_iff)
    then have "of_int (round_even (a / ulp b)) * ulp b \<le> of_int (round_even (b / ulp b)) * ulp b"
      using ulp_pos [of b] by (intro mult_right_mono) simp_all
    then show ?thesis using a0 b0 u by (simp add: fl_def)
  next
    case False
    with le have lt: "max (expo a) (- 1022) + 1 \<le> max (expo b) (- 1022)" by linarith
    then have eb: "- 1022 \<le> expo b" "max (expo b) (- 1022) = expo b" by auto
    have "fl a \<le> 2 powi (max (expo a) (- 1022) + 1)" using fl_upper [OF assms(1)] .
    also have "\<dots> \<le> 2 powi (max (expo b) (- 1022))"
      using lt by (intro power_int_increasing) simp_all
    also have "\<dots> \<le> fl b" using fl_lower [OF bp eb(1)] eb(2) by simp
    finally show ?thesis .
  qed
qed

lemma fl_mono:
  assumes "a \<le> b" shows "fl a \<le> fl b"
proof -
  consider "0 < a" | "a \<le> 0" "0 \<le> b" | "b < 0" using assms by linarith
  then show ?thesis
  proof cases
    case 1
    then show ?thesis using assms by (rule fl_mono_pos)
  next
    case 2
    have "0 \<le> fl (- a)" using 2(1) by (intro fl_nonneg) simp
    then have "fl a \<le> 0" by (simp add: fl_minus)
    moreover have "0 \<le> fl b" using 2(2) by (rule fl_nonneg)
    ultimately show ?thesis by linarith
  next
    case 3
    then have "fl (- b) \<le> fl (- a)" using assms by (intro fl_mono_pos) simp_all
    then show ?thesis by (simp add: fl_minus)
  qed
qed

lemma fl_fixI:
  assumes x: "x = of_int m * 2 powi k" and k: "- 1074 \<le> k" and b: "\<bar>x\<bar> \<le> 2 powi (k + 53)"
  shows "fl x = x"
proof (cases "x = 0")
  case True
  then show ?thesis by (simp add: fl_def)
next
  case False
  define e where "e = max (expo x) (- 1022)"
  have "(2::real) powi expo x < 2 powi (k + 53 + 1)"
  proof -
    have "(2::real) powi expo x \<le> \<bar>x\<bar>" using expo_bounds(1) [OF False] .
    also have "\<dots> \<le> 2 powi (k + 53)" by (rule b)
    also have "\<dots> < 2 powi (k + 53 + 1)" by (rule power_int_strict_increasing) simp_all
    finally show ?thesis .
  qed
  then have "expo x < k + 53 + 1" by (rule powi2_less_imp)
  then have e53: "e \<le> k + 53" using k by (simp add: e_def)
  have u: "ulp x = 2 powi (e - 52)" by (simp add: ulp_def e_def)
  have "\<exists>n. x / ulp x = of_int n"
  proof (cases "e = k + 53")
    case True
    then have ex: "expo x = k + 53" using k by (auto simp: e_def max_def split: if_splits)
    have "2 powi (k + 53) \<le> \<bar>x\<bar>" using expo_bounds(1) [OF False] ex by simp
    with b have ax: "\<bar>x\<bar> = 2 powi (k + 53)" by linarith
    have "(2::real) powi (k + 53) = 2 ^ 52 * 2 powi (k + 1)"
      by (rule powi2_shift) simp
    moreover have "ulp x = 2 powi (k + 1)" using u True by (simp add: add.commute)
    ultimately have "\<bar>x\<bar> = 2 ^ 52 * ulp x" using ax by simp
    then have "\<bar>x\<bar> / ulp x = 2 ^ 52" using ulp_pos [of x] by (simp add: field_simps)
    then have "\<bar>x / ulp x\<bar> = of_int (2 ^ 52)" using ulp_pos [of x] by simp
    then have "x / ulp x = of_int (2 ^ 52) \<or> x / ulp x = of_int (- (2 ^ 52))"
      by (simp only: abs_eq_iff' of_int_minus)
    then show ?thesis by blast
  next
    case False
    with e53 have j: "0 \<le> k - e + 52" by linarith
    have "(2::real) powi k = 2 powi (k - e + 52) * 2 powi (e - 52)" by (simp flip: power_int_add)
    then have "x / ulp x = of_int m * 2 powi (k - e + 52)" using x u by simp
    also have "\<dots> = of_int m * 2 ^ nat (k - e + 52)" using j by (simp add: power_int_def)
    also have "\<dots> = of_int (m * 2 ^ nat (k - e + 52))" by simp
    finally show ?thesis by blast
  qed
  then obtain n where n: "x / ulp x = of_int n" ..
  then have "x = of_int n * ulp x" using ulp_pos [of x] by (simp add: field_simps)
  moreover have "fl x = of_int (round_even (of_int n)) * ulp x"
    using \<open>x \<noteq> 0\<close> n by (simp add: fl_def)
  ultimately show ?thesis by (simp only: round_even_of_int)
qed

lemma fl_idem: "fl (fl r) = fl r"
proof -
  have pos: "fl (fl r) = fl r" if "0 < r" for r
  proof (rule fl_fixI)
    show "fl r = of_int (round_even (r / ulp r)) * 2 powi (max (expo r) (- 1022) - 52)"
      using that by (simp add: fl_def ulp_def)
    show "- 1074 \<le> max (expo r) (- 1022) - 52" by simp
    have "0 \<le> fl r" using that by (intro fl_nonneg) simp
    then show "\<bar>fl r\<bar> \<le> 2 powi (max (expo r) (- 1022) - 52 + 53)"
      using fl_upper [OF that] by (simp add: add.commute)
  qed
  consider "0 < r" | "r = 0" | "r < 0" by linarith
  then show ?thesis
  proof cases
    case 1 then show ?thesis by (rule pos)
  next
    case 2 then show ?thesis by (simp add: fl_def)
  next
    case 3
    then have "fl (fl (- r)) = fl (- r)" by (intro pos) simp
    then show ?thesis by (simp add: fl_minus)
  qed
qed

lemma fl_of_int:
  assumes "\<bar>n\<bar> \<le> 2 ^ 53" shows "fl (of_int n) = of_int n"
proof (rule fl_fixI [where m = n and k = 0])
  show "real_of_int n = of_int n * 2 powi 0" by simp
  show "- 1074 \<le> (0::int)" by simp
  have "\<bar>real_of_int n\<bar> = of_int \<bar>n\<bar>" by simp
  also have "\<dots> \<le> of_int (2 ^ 53)" using assms by (simp only: of_int_le_iff)
  finally show "\<bar>real_of_int n\<bar> \<le> 2 powi (0 + 53)" by simp
qed

section \<open>One axis of the interpolation\<close>

lemma interpolationSpeed_val: "interpolationSpeed = 3602879701896397 / 36028797018963968"
  unfolding interpolationSpeed_def by code_simp

lemma interpolationSpeed_bounds: "1/16 \<le> interpolationSpeed" "interpolationSpeed \<le> 1/8"
  by (simp_all add: interpolationSpeed_val)

lemma fl_half: "fl (1/2) = 1/2"
  by code_simp

lemma fl_32nd: "fl (1/32) = 1/32"
  by code_simp

lemma approach_minus: "approach (- x) (- t) = - approach x t"
proof -
  have "- t - - x = - (t - x)" by simp
  then have "fl (- t - - x) = - fl (t - x)" by (simp only: fl_minus)
  then have "fl (fl (- t - - x) * interpolationSpeed) = - fl (fl (t - x) * interpolationSpeed)"
    by (simp add: fl_minus)
  then have "- x + fl (fl (- t - - x) * interpolationSpeed)
      = - (x + fl (fl (t - x) * interpolationSpeed))" by simp
  then show ?thesis unfolding approach_def by (simp only: fl_minus)
qed

lemma step_bounds_up:
  assumes "x \<le> t"
  shows "0 \<le> fl (fl (t - x) * interpolationSpeed)"
    and "2 * fl (fl (t - x) * interpolationSpeed) \<le> t - x"
proof -
  define d where "d = t - x"
  have d0: "0 \<le> d" using assms by (simp add: d_def)
  have f0: "0 \<le> fl d" using d0 by (rule fl_nonneg)
  have f2: "fl d \<le> 2 * d" using d0 by (rule fl_le_twice)
  have w0: "0 \<le> fl d * interpolationSpeed"
    using f0 interpolationSpeed_bounds(1) by simp
  have "fl d * interpolationSpeed \<le> fl d * (1/8)"
    using f0 interpolationSpeed_bounds(2) by (intro mult_left_mono) simp_all
  then have w2: "fl d * interpolationSpeed \<le> d / 4" using f2 by simp
  show "0 \<le> fl (fl (t - x) * interpolationSpeed)"
    using w0 unfolding d_def by (rule fl_nonneg)
  have "fl (fl d * interpolationSpeed) \<le> 2 * (fl d * interpolationSpeed)"
    using w0 by (rule fl_le_twice)
  then show "2 * fl (fl (t - x) * interpolationSpeed) \<le> t - x"
    using w2 d0 unfolding d_def by simp
qed

lemma approach_between_up:
  assumes "fl x = x" and "fl t = t" and "x \<le> t"
  shows "x \<le> approach x t" and "approach x t \<le> t"
proof -
  note b = step_bounds_up [OF assms(3)]
  have "fl x \<le> approach x t" unfolding approach_def using b(1) by (intro fl_mono) simp
  then show "x \<le> approach x t" by (simp only: assms(1))
  have "approach x t \<le> fl t" unfolding approach_def using b(2) assms(3) by (intro fl_mono) simp
  then show "approach x t \<le> t" by (simp only: assms(2))
qed

lemma approach_between_down:
  assumes "fl x = x" and "fl t = t" and "t \<le> x"
  shows "t \<le> approach x t" and "approach x t \<le> x"
proof -
  have "fl (- x) = - x" "fl (- t) = - t" "- x \<le> - t"
    using assms by (simp_all add: fl_minus)
  from approach_between_up [OF this]
  show "t \<le> approach x t" and "approach x t \<le> x" by (simp_all add: approach_minus)
qed

lemma ulp_small:
  assumes "\<bar>r\<bar> \<le> 2 ^ 31" shows "ulp r \<le> 1 / 2 ^ 21"
proof (cases "r = 0")
  case True
  have "(2::real) powi (- 1074) \<le> 2 powi (- 21)" by (rule power_int_increasing) simp_all
  moreover have "expo 0 = 0" by code_simp
  ultimately show ?thesis using True by (simp add: ulp_def power_int_minus field_simps)
next
  case False
  have "(2::real) powi expo r \<le> \<bar>r\<bar>" using expo_bounds(1) [OF False] .
  also have "\<dots> \<le> 2 ^ 31" by (rule assms)
  also have "\<dots> < (2::real) powi 32" by simp
  finally have "expo r < 32" by (rule powi2_less_imp)
  then have "max (expo r) (- 1022) - 52 \<le> - 21" by simp
  then have "(2::real) powi (max (expo r) (- 1022) - 52) \<le> 2 powi (- 21)"
    by (rule power_int_increasing) simp
  then show ?thesis by (simp add: ulp_def power_int_minus field_simps)
qed

lemma approach_progress_up:
  assumes x: "fl x = x" and t: "fl t = t" and xb: "\<bar>x\<bar> \<le> 2 ^ 31" and tb: "\<bar>t\<bar> \<le> 2 ^ 31"
    and far: "1/2 < fl (t - x)"
  shows "x < approach x t"
proof -
  have xt: "x \<le> t"
  proof (rule ccontr)
    assume "\<not> x \<le> t"
    then have "t - x \<le> 0" by simp
    then have "fl (t - x) \<le> fl 0" by (rule fl_mono)
    with far show False by (simp add: fl_zero)
  qed
  note b = step_bounds_up [OF xt]
  define p where "p = fl (fl (t - x) * interpolationSpeed)"
  have "1/32 \<le> fl (t - x) * interpolationSpeed"
  proof -
    have "(1/2) * (1/16) \<le> fl (t - x) * interpolationSpeed"
      using far interpolationSpeed_bounds(1) by (intro mult_mono) simp_all
    then show ?thesis by simp
  qed
  then have "fl (1/32) \<le> p" unfolding p_def by (rule fl_mono)
  then have p32: "1/32 \<le> p" by (simp only: fl_32nd)
  have "0 \<le> p" "2 * p \<le> t - x" using b by (simp_all add: p_def)
  then have "x \<le> x + p" "x + p \<le> t" using xt by linarith+
  then have "\<bar>x + p\<bar> \<le> max \<bar>x\<bar> \<bar>t\<bar>" by linarith
  also have "\<dots> \<le> 2 ^ 31" using xb tb by simp
  finally have "\<bar>x + p\<bar> \<le> 2 ^ 31" .
  then have "ulp (x + p) \<le> 1 / 2 ^ 21" by (rule ulp_small)
  with fl_err [of "x + p"] have "\<bar>fl (x + p) - (x + p)\<bar> \<le> 1 / 2 ^ 22" by simp
  then have "x + p - 1 / 2 ^ 22 \<le> fl (x + p)" by linarith
  with p32 have "x < fl (x + p)" by simp
  then show ?thesis by (simp add: approach_def p_def)
qed

lemma approach_progress_down:
  assumes x: "fl x = x" and t: "fl t = t" and xb: "\<bar>x\<bar> \<le> 2 ^ 31" and tb: "\<bar>t\<bar> \<le> 2 ^ 31"
    and far: "fl (t - x) < - (1/2)"
  shows "approach x t < x"
proof -
  have "fl (- t - - x) = - fl (t - x)"
    by (metis fl_minus minus_diff_eq minus_diff_minus)
  with far have "1/2 < fl (- t - - x)" by simp
  moreover have "fl (- x) = - x" "fl (- t) = - t" using x t by (simp_all add: fl_minus)
  ultimately have "- x < approach (- x) (- t)"
    using xb tb by (intro approach_progress_up) simp_all
  then show ?thesis by (simp add: approach_minus)
qed

section \<open>Frame conditions\<close>

lemma erased_fields:
  assumes "erase_players a = erase_players b"
  shows "world a = world b" and "me a = me b" and "viewport a = viewport b"
    and "keysPressed a = keysPressed b" and "movementLoopId a = movementLoopId b"
    and "lastMoveTime a = lastMoveTime b" and "canSendMoveCommands a = canSendMoveCommands b"
    and "joinsAwaitingCache a = joinsAwaitingCache b"
proof -
  have "world (erase_players a) = world (erase_players b)"
    "me (erase_players a) = me (erase_players b)"
    "viewport (erase_players a) = viewport (erase_players b)"
    "keysPressed (erase_players a) = keysPressed (erase_players b)"
    "movementLoopId (erase_players a) = movementLoopId (erase_players b)"
    "lastMoveTime (erase_players a) = lastMoveTime (erase_players b)"
    "canSendMoveCommands (erase_players a) = canSendMoveCommands (erase_players b)"
    "joinsAwaitingCache (erase_players a) = joinsAwaitingCache (erase_players b)"
    by (simp_all only: assms)
  then show "world a = world b" and "me a = me b" and "viewport a = viewport b"
    and "keysPressed a = keysPressed b" and "movementLoopId a = movementLoopId b"
    and "lastMoveTime a = lastMoveTime b" and "canSendMoveCommands a = canSendMoveCommands b"
    and "joinsAwaitingCache a = joinsAwaitingCache b"
    by (simp_all add: erase_players_def)
qed

lemma erase_byId_set: "erase_players (byId_set k player s) = erase_players s"
  by (simp add: erase_players_def byId_set_def)

lemma erase_store_other: "erase_players (store_other S2N e entry s) = erase_players s"
  by (simp add: store_other_def erase_byId_set split: prod.splits)

lemma erase_fold_store: "erase_players (fold (store_other S2N e) ps s) = erase_players s"
  by (induction ps arbitrary: s) (simp_all add: erase_store_other)

lemma erase_move_other: "erase_players (move_other S2N e entry s) = erase_players s"
  by (simp add: erase_players_def move_other_def split: prod.splits option.splits found.splits)

lemma erase_fold_move: "erase_players (fold (move_other S2N e) ps s) = erase_players s"
  by (induction ps arbitrary: s) (simp_all add: erase_move_other)

lemmas byId_set_fields = erased_fields [OF erase_byId_set]
lemmas fold_store_fields = erased_fields [OF erase_fold_store]
lemmas fold_move_fields = erased_fields [OF erase_fold_move]

lemma updateCamera_fields:
  "world (updateCamera s) = world s" "me (updateCamera s) = me s" "byId (updateCamera s) = byId s"
  "keysPressed (updateCamera s) = keysPressed s" "movementLoopId (updateCamera s) = movementLoopId s"
  "lastMoveTime (updateCamera s) = lastMoveTime s"
  "canSendMoveCommands (updateCamera s) = canSendMoveCommands s"
  "joinsAwaitingCache (updateCamera s) = joinsAwaitingCache s"
  "byIdPrototype (updateCamera s) = byIdPrototype s"
  "objectPrototype (updateCamera s) = objectPrototype s"
  "memberProperties (updateCamera s) = memberProperties s"
  by (simp_all add: updateCamera_def Let_def)

lemma handle_message_throttle:
  "canSendMoveCommands (handle_message S2N e m s) = canSendMoveCommands s"
  "lastMoveTime (handle_message S2N e m s) = lastMoveTime s"
  by (cases m;
      simp add: handle_join_game_def handle_players_moved_def handle_player_joined_def
        handle_player_left_def handle_chat_def Let_def fold_store_fields fold_move_fields
        byId_set_fields updateCamera_fields split: option.splits ident.splits)+


lemma movementLoop_throttle:
  "canSendMoveCommands (fst (movementLoop e s)) = canSendMoveCommands s"
  "list_ex is_move (snd (movementLoop e s)) \<Longrightarrow> canSendMoveCommands s"
  "list_ex is_direction_move (snd (movementLoop e s))
     \<Longrightarrow> lastMoveTime s + 100 \<le> now e \<and> lastMoveTime (fst (movementLoop e s)) = now e"
  "\<not> list_ex is_direction_move (snd (movementLoop e s))
     \<Longrightarrow> lastMoveTime (fst (movementLoop e s)) = lastMoveTime s"
  by (auto simp: movementLoop_def Let_def list_ex_iff split: if_splits)

lemma step_gate_kept:
  "canSendMoveCommands s \<Longrightarrow> canSendMoveCommands (fst (step S2N e ev s))"
  by (cases ev)
     (simp_all add: resizeCanvas_def updateCamera_fields render_def updatePlayerInterpolation_def
        handleKeyDown_def handleKeyUp_def movementLoop_throttle handle_message_throttle
        resume_join_game_def startMovementLoop_def stopMovementLoop_def Let_def
        split: option.splits nat.splits)

lemma step_move_needs_gate:
  "list_ex is_move (snd (step S2N e ev s)) \<Longrightarrow> canSendMoveCommands (fst (step S2N e ev s))"
  by (cases ev)
     (auto simp add: handleClick_def handleChatEnter_def movementLoop_throttle
        resume_join_game_def startMovementLoop_def Let_def updateCamera_fields
        split: if_splits nat.splits)

lemma startMovementLoop_burst:
  "list_ex is_direction_move (snd (startMovementLoop e s))
     \<Longrightarrow> lastMoveTime s + 100 \<le> now e \<and> lastMoveTime (fst (startMovementLoop e s)) = now e"
  "\<not> list_ex is_direction_move (snd (startMovementLoop e s))
     \<Longrightarrow> lastMoveTime (fst (startMovementLoop e s)) = lastMoveTime s"
  by (auto simp: startMovementLoop_def movementLoop_throttle split: if_splits)

lemma resume_join_game_burst:
  "list_ex is_direction_move (snd (resume_join_game e c s))
     \<Longrightarrow> lastMoveTime s + 100 \<le> now e \<and> lastMoveTime (fst (resume_join_game e c s)) = now e"
  "\<not> list_ex is_direction_move (snd (resume_join_game e c s))
     \<Longrightarrow> lastMoveTime (fst (resume_join_game e c s)) = lastMoveTime s"
  using startMovementLoop_burst
    [of e "(updateCamera (if c then s\<lparr>me := (me s)\<lparr>me_ready := True\<rparr>\<rparr> else s))
             \<lparr>canSendMoveCommands := True\<rparr>"]
  by (simp_all add: resume_join_game_def Let_def updateCamera_fields split: if_splits)

lemma step_burst_time:
  "list_ex is_direction_move (snd (step S2N e ev s))
     \<Longrightarrow> lastMoveTime s + 100 \<le> now e \<and> lastMoveTime (fst (step S2N e ev s)) = now e"
proof (cases ev)
  case MovementTimer
  then show "list_ex is_direction_move (snd (step S2N e ev s))
     \<Longrightarrow> lastMoveTime s + 100 \<le> now e \<and> lastMoveTime (fst (step S2N e ev s)) = now e"
    using movementLoop_throttle(3) [of e s] by (simp split: if_splits)
next
  case (AvatarsCached c)
  then show "list_ex is_direction_move (snd (step S2N e ev s))
     \<Longrightarrow> lastMoveTime s + 100 \<le> now e \<and> lastMoveTime (fst (step S2N e ev s)) = now e"
    using resume_join_game_burst(1) [of e c "s\<lparr>joinsAwaitingCache := joinsAwaitingCache s - 1\<rparr>"]
    by (cases "joinsAwaitingCache s") simp_all
qed (simp_all add: handleClick_def handleChatEnter_def Let_def split: if_splits)

lemma step_no_burst_time:
  "\<not> list_ex is_direction_move (snd (step S2N e ev s))
     \<Longrightarrow> lastMoveTime (fst (step S2N e ev s)) = lastMoveTime s"
proof (cases ev)
  case MovementTimer
  then show "\<not> list_ex is_direction_move (snd (step S2N e ev s))
     \<Longrightarrow> lastMoveTime (fst (step S2N e ev s)) = lastMoveTime s"
    using movementLoop_throttle(4) [of e s] by (simp split: if_splits)
next
  case (AvatarsCached c)
  then show "\<not> list_ex is_direction_move (snd (step S2N e ev s))
     \<Longrightarrow> lastMoveTime (fst (step S2N e ev s)) = lastMoveTime s"
    using resume_join_game_burst(2) [of e c "s\<lparr>joinsAwaitingCache := joinsAwaitingCache s - 1\<rparr>"]
    by (cases "joinsAwaitingCache s") simp_all
qed (simp_all add: resizeCanvas_def updateCamera_fields render_def updatePlayerInterpolation_def
        handleKeyDown_def handleKeyUp_def handle_message_throttle stopMovementLoop_def
        split: option.splits)

lemma run_gate:
  "\<not> canSendMoveCommands (fst (run S2N evs s)) \<Longrightarrow> bursts is_move (snd (run S2N evs s)) = []"
proof (induction evs arbitrary: s)
  case Nil
  then show ?case by (simp add: bursts_def)
next
  case (Cons x evs)
  obtain e ev where x: "x = (e, ev)" by (cases x)
  define s1 where "s1 = fst (step S2N e ev s)"
  have r: "run S2N (x # evs) s
      = (fst (run S2N evs s1), (now e, snd (step S2N e ev s)) # snd (run S2N evs s1))"
    by (simp add: x s1_def split: prod.splits)
  from Cons.prems have end_closed: "\<not> canSendMoveCommands (fst (run S2N evs s1))" by (simp add: r)
  then have rest: "bursts is_move (snd (run S2N evs s1)) = []" by (rule Cons.IH)
  have gate_mono: "canSendMoveCommands t \<Longrightarrow> canSendMoveCommands (fst (run S2N evs t))" for t
  proof (induction evs arbitrary: t)
    case Nil then show ?case by simp
  next
    case (Cons y evs)
    then show ?case using step_gate_kept by (cases y) (simp split: prod.splits, metis fst_conv)
  qed
  have "\<not> canSendMoveCommands s1" using end_closed gate_mono by blast
  then have "\<not> list_ex is_move (snd (step S2N e ev s))"
    unfolding s1_def using step_move_needs_gate by blast
  then show ?case using rest by (simp add: r bursts_def)
qed

lemma run_spaced:
  "spaced (bursts is_direction_move (snd (run S2N evs s)))
   \<and> (\<forall>t \<in> set (bursts is_direction_move (snd (run S2N evs s))). lastMoveTime s + 100 \<le> t)"
proof (induction evs arbitrary: s)
  case Nil
  then show ?case by (simp add: bursts_def)
next
  case (Cons x evs)
  obtain e ev where x: "x = (e, ev)" by (cases x)
  define s1 where "s1 = fst (step S2N e ev s)"
  define later where "later = bursts is_direction_move (snd (run S2N evs s1))"
  have r: "run S2N (x # evs) s
      = (fst (run S2N evs s1), (now e, snd (step S2N e ev s)) # snd (run S2N evs s1))"
    by (simp add: x s1_def split: prod.splits)
  have IH: "spaced later" "\<forall>t \<in> set later. lastMoveTime s1 + 100 \<le> t"
    using Cons.IH [of s1] by (simp_all add: later_def)
  show ?case
  proof (cases "list_ex is_direction_move (snd (step S2N e ev s))")
    case True
    then have t: "lastMoveTime s + 100 \<le> now e" "lastMoveTime s1 = now e"
      using step_burst_time [of S2N e ev s] by (simp_all add: s1_def)
    have b: "bursts is_direction_move (snd (run S2N (x # evs) s)) = now e # later"
      using True by (simp add: r bursts_def later_def)
    show ?thesis unfolding b using IH t by auto
  next
    case False
    then have t: "lastMoveTime s1 = lastMoveTime s"
      using step_no_burst_time [of S2N e ev s] by (simp add: s1_def)
    have b: "bursts is_direction_move (snd (run S2N (x # evs) s)) = later"
      using False by (simp add: r bursts_def later_def)
    show ?thesis unfolding b using IH t by simp
  qed
qed

section \<open>The claims\<close>

subsection \<open>Camera\<close>

text \<open>
  C4. Whenever the camera is recomputed (the world is ready, neither dimension of the
  world is zero and the local player has a position from the server), \<open>cameraX\<close> lies in
  \<open>[0, max 0 (W - w)]\<close> and \<open>cameraY\<close> in \<open>[0, max 0 (H - h)]\<close>, for every world size,
  viewport size and local position.
\<close>

theorem camera_within_bounds:
  assumes "world_ready (world s)" and "world_width (world s) \<noteq> 0"
    and "world_height (world s) \<noteq> 0" and "hasServerPosition (me s)"
  shows "0 \<le> cameraX (viewport (updateCamera s))
       \<and> cameraX (viewport (updateCamera s)) \<le> max 0 (world_width (world s) - vp_width (viewport s))
       \<and> 0 \<le> cameraY (viewport (updateCamera s))
       \<and> cameraY (viewport (updateCamera s)) \<le> max 0 (world_height (world s) - vp_height (viewport s))"
  using assms by (simp add: updateCamera_def Let_def clamp_def)

theorem camera_within_bounds_witness:
  "world_ready (world off_world) \<and> world_width (world off_world) \<noteq> 0
   \<and> world_height (world off_world) \<noteq> 0 \<and> hasServerPosition (me off_world)
   \<and> me_x (me off_world) < 0 \<and> world_height (world off_world) < me_y (me off_world)
   \<and> cameraX (viewport (updateCamera off_world)) = 0
   \<and> cameraY (viewport (updateCamera off_world)) = 1448
   \<and> max 0 (world_width (world off_world) - vp_width (viewport off_world)) = 1248
   \<and> max 0 (world_height (world off_world) - vp_height (viewport off_world)) = 1448"
proof -
  have h: "world_ready (world off_world)" "world_width (world off_world) \<noteq> 0"
    "world_height (world off_world) \<noteq> 0" "hasServerPosition (me off_world)"
    by (simp_all add: off_world_def init_def)
  have v: "cameraX (viewport (updateCamera off_world)) = 0"
    "cameraY (viewport (updateCamera off_world)) = 1448"
    by (simp_all add: off_world_def init_def updateCamera_def Let_def clamp_def)
  show ?thesis using camera_within_bounds [OF h] h v by (simp add: off_world_def init_def)
qed

text \<open>
  C6. While the local player has no position from the server, or the world is not ready or
  has a zero dimension, recomputing the camera changes nothing: \<open>cameraX\<close> and
  \<open>cameraY\<close> keep their values, as does the rest of the state.
\<close>

theorem camera_kept_without_position:
  assumes "\<not> hasServerPosition (me s) \<or> \<not> world_ready (world s)
           \<or> world_width (world s) = 0 \<or> world_height (world s) = 0"
  shows "updateCamera s = s
       \<and> cameraX (viewport (updateCamera s)) = cameraX (viewport s)
       \<and> cameraY (viewport (updateCamera s)) = cameraY (viewport s)"
  using assms by (auto simp add: updateCamera_def)

theorem camera_kept_without_position_witness:
  "\<not> hasServerPosition (me unplaced) \<and> world_ready (world unplaced)
   \<and> world_width (world unplaced) = 2048 \<and> world_height (world unplaced) = 2048
   \<and> cameraX (viewport unplaced) = 7 \<and> cameraY (viewport unplaced) = 9
   \<and> updateCamera unplaced = unplaced
   \<and> cameraX (viewport (updateCamera unplaced)) = 7
   \<and> cameraY (viewport (updateCamera unplaced)) = 9
   \<and> cameraX (viewport (updateCamera (unplaced\<lparr>me := (me unplaced)\<lparr>hasServerPosition := True\<rparr>\<rparr>))) = 624
   \<and> cameraY (viewport (updateCamera (unplaced\<lparr>me := (me unplaced)\<lparr>hasServerPosition := True\<rparr>\<rparr>))) = 724
   \<and> hasServerPosition (me flat_world) \<and> world_ready (world flat_world)
   \<and> world_height (world flat_world) = 0
   \<and> updateCamera flat_world = flat_world
   \<and> cameraX (viewport (updateCamera flat_world)) = 7
   \<and> cameraY (viewport (updateCamera flat_world)) = 9
   \<and> hasServerPosition (me unloaded) \<and> \<not> world_ready (world unloaded)
   \<and> updateCamera unloaded = unloaded
   \<and> cameraX (viewport (updateCamera unloaded)) = 7
   \<and> cameraY (viewport (updateCamera unloaded)) = 9"
proof -
  have u: "\<not> hasServerPosition (me unplaced)" "world_ready (world unplaced)"
    "world_width (world unplaced) = 2048" "world_height (world unplaced) = 2048"
    "cameraX (viewport unplaced) = 7" "cameraY (viewport unplaced) = 9"
    by (simp_all add: unplaced_def init_def)
  have r: "cameraX (viewport (updateCamera (unplaced\<lparr>me := (me unplaced)\<lparr>hasServerPosition := True\<rparr>\<rparr>))) = 624"
    "cameraY (viewport (updateCamera (unplaced\<lparr>me := (me unplaced)\<lparr>hasServerPosition := True\<rparr>\<rparr>))) = 724"
    by (simp_all add: unplaced_def init_def updateCamera_def Let_def clamp_def)
  have f: "hasServerPosition (me flat_world)" "world_ready (world flat_world)"
    "world_height (world flat_world) = 0"
    "cameraX (viewport flat_world) = 7" "cameraY (viewport flat_world) = 9"
    by (simp_all add: flat_world_def unplaced_def init_def)
  have n: "hasServerPosition (me unloaded)" "\<not> world_ready (world unloaded)"
    "cameraX (viewport unloaded) = 7" "cameraY (viewport unloaded) = 9"
    by (simp_all add: unloaded_def unplaced_def init_def)
  have 1: "\<not> hasServerPosition (me unplaced) \<or> \<not> world_ready (world unplaced)
           \<or> world_width (world unplaced) = 0 \<or> world_height (world unplaced) = 0"
    using u(1) by simp
  have 2: "\<not> hasServerPosition (me flat_world) \<or> \<not> world_ready (world flat_world)
           \<or> world_width (world flat_world) = 0 \<or> world_height (world flat_world) = 0"
    using f(3) by simp
  have 3: "\<not> hasServerPosition (me unloaded) \<or> \<not> world_ready (world unloaded)
           \<or> world_width (world unloaded) = 0 \<or> world_height (world unloaded) = 0"
    using n(2) by simp
  from camera_kept_without_position [OF 1] camera_kept_without_position [OF 2]
    camera_kept_without_position [OF 3] u r f n
  show ?thesis by simp
qed

text \<open>
  C9. World 2048 by 2048, viewport 800 by 600, world ready, a position from the server,
  local position (1024, 1024): the recomputed camera is (624, 724).
\<close>

theorem camera_scenario:
  assumes "world s = \<lparr>world_width = 2048, world_height = 2048, world_ready = True\<rparr>"
    and "vp_width (viewport s) = 800" and "vp_height (viewport s) = 600"
    and "hasServerPosition (me s)" and "me_x (me s) = 1024" and "me_y (me s) = 1024"
  shows "cameraX (viewport (updateCamera s)) = 624 \<and> cameraY (viewport (updateCamera s)) = 724"
  using assms by (simp add: updateCamera_def Let_def clamp_def)

theorem camera_scenario_witness:
  "world scenario = \<lparr>world_width = 2048, world_height = 2048, world_ready = True\<rparr>
   \<and> vp_width (viewport scenario) = 800 \<and> vp_height (viewport scenario) = 600
   \<and> hasServerPosition (me scenario) \<and> me_x (me scenario) = 1024 \<and> me_y (me scenario) = 1024
   \<and> cameraX (viewport (updateCamera scenario)) = 624
   \<and> cameraY (viewport (updateCamera scenario)) = 724"
proof -
  have h: "world scenario = \<lparr>world_width = 2048, world_height = 2048, world_ready = True\<rparr>"
    "vp_width (viewport scenario) = 800" "vp_height (viewport scenario) = 600"
    "hasServerPosition (me scenario)" "me_x (me scenario) = 1024" "me_y (me scenario) = 1024"
    by (simp_all add: scenario_def init_def)
  from camera_scenario [OF h] h show ?thesis by simp
qed

subsection \<open>Joining\<close>

text \<open>
  C7. A \<open>join_game\<close> response whose \<open>success\<close> is \<open>false\<close> changes no variable: the
  local player, the remote players, the camera and the gate of the move commands are as
  before; nothing is sent and no handler stays suspended.
\<close>

theorem join_refused_changes_nothing:
  "step S2N e (WsMessage (JoinGame (JBool False) playerId players)) s = (s, [])
   \<and> handle_join_game S2N e (JBool False) playerId players s = s"
  by (simp add: handle_join_game_def)

theorem join_refused_changes_nothing_witness:
  "step no_numeric_strings \<lparr>now = 20, ws_open = True\<rparr>
     (WsMessage (JoinGame (JBool False) (IdString ''42'') (Some [(''42'', player42)]))) init
   = (init, [])"
  using join_refused_changes_nothing
    [of no_numeric_strings "\<lparr>now = 20, ws_open = True\<rparr>" "IdString ''42''"
        "Some [(''42'', player42)]" init]
  by simp

subsection \<open>Move commands\<close>

text \<open>
  C1, as the code has it. No move command, by direction or to a point, is sent while the
  gate \<open>canSendMoveCommands\<close> is unset. The timer loop sends its direction moves in bursts
  that are at least 100 ms apart by \<open>Date.now()\<close>, however often it runs. A click on the
  canvas, once the gate is set and the channel open, sends its move at once: the click
  listener has no throttle.
\<close>

theorem moves_gated_and_loop_throttled:
  "(\<not> canSendMoveCommands (fst (run S2N evs s)) \<longrightarrow> bursts is_move (snd (run S2N evs s)) = [])
   \<and> spaced (bursts is_direction_move (snd (run S2N evs s)))
   \<and> (world_ready (world s) \<and> canSendMoveCommands s \<and> ws_open e \<longrightarrow>
        (\<exists>x y. snd (step S2N e (CanvasClick clientX clientY rectLeft rectTop) s) = [MoveTo x y]))"
  using run_gate [of S2N evs s] run_spaced [of S2N evs s]
  by (simp add: handleClick_def Let_def)

theorem moves_gated_and_loop_throttled_witness:
  "\<not> canSendMoveCommands (fst (run no_numeric_strings refused_trace init))
   \<and> bursts is_move (snd (run no_numeric_strings refused_trace init)) = []
   \<and> bursts is_direction_move (snd (run no_numeric_strings key_trace init)) = [200, 300]
   \<and> spaced (bursts is_direction_move (snd (run no_numeric_strings key_trace init)))
   \<and> world_ready (world joined) \<and> canSendMoveCommands joined
   \<and> snd (step no_numeric_strings \<lparr>now = 1000, ws_open = True\<rparr> (CanvasClick 10 10 0 0) joined)
       = [MoveTo 10 10]"
proof -
  have c: "\<not> canSendMoveCommands (fst (run no_numeric_strings refused_trace init))"
    by code_simp
  have k: "bursts is_direction_move (snd (run no_numeric_strings key_trace init)) = [200, 300]"
    by code_simp
  have j: "world_ready (world joined)" "canSendMoveCommands joined"
    "snd (step no_numeric_strings \<lparr>now = 1000, ws_open = True\<rparr> (CanvasClick 10 10 0 0) joined)
       = [MoveTo 10 10]"
    unfolding joined_def by code_simp+
  from moves_gated_and_loop_throttled [of no_numeric_strings refused_trace init]
    moves_gated_and_loop_throttled [of no_numeric_strings key_trace init] c k j
  show ?thesis by simp
qed

text \<open>
  C1 as stated fails on the click listener: after the join, two clicks 10 ms apart send
  two move commands 10 ms apart.
\<close>

theorem two_clicks_two_moves:
  "canSendMoveCommands (fst (run no_numeric_strings joined_trace init))
   \<and> bursts is_move (snd (run no_numeric_strings click_trace init)) = [1000, 1010]
   \<and> \<not> spaced (bursts is_move (snd (run no_numeric_strings click_trace init)))"
proof -
  have g: "canSendMoveCommands (fst (run no_numeric_strings joined_trace init))"
    by code_simp
  have b: "bursts is_move (snd (run no_numeric_strings click_trace init)) = [1000, 1010]"
    by code_simp
  show ?thesis using g b by simp
qed

subsection \<open>The local position\<close>

lemma movementLoop_me: "me (fst (movementLoop e s)) = me s"
  by (simp add: movementLoop_def Let_def)

lemma resume_join_game_position: "position (fst (resume_join_game e c s)) = position s"
  by (simp add: resume_join_game_def Let_def startMovementLoop_def movementLoop_me
        updateCamera_fields position_def)

lemma step_position:
  "\<not> carries_position ev \<Longrightarrow> position (fst (step S2N e ev s)) = position s"
proof (cases ev)
  case (WsMessage m)
  assume "\<not> carries_position ev"
  with WsMessage show ?thesis
    by (cases m)
       (simp_all add: position_def handle_player_joined_def handle_player_left_def handle_chat_def
          byId_set_fields split: option.splits ident.splits)
next
  case (AvatarsCached c)
  then show ?thesis
    using resume_join_game_position [of e c "s\<lparr>joinsAwaitingCache := joinsAwaitingCache s - 1\<rparr>"]
    by (cases "joinsAwaitingCache s") (simp_all add: position_def)
qed (simp_all add: position_def resizeCanvas_def updateCamera_fields render_def
       updatePlayerInterpolation_def handleKeyDown_def handleKeyUp_def movementLoop_me
       stopMovementLoop_def split: option.splits)

text \<open>
  C5. The position of the local player is written only by the handlers of \<open>join_game\<close>
  and \<open>players_moved\<close>. The interpolation tick, the input tick, a resize of the
  viewport, the handlers of \<open>player_joined\<close>, \<open>player_left\<close> and \<open>chat\<close>, and every
  other event leave it as it is.
\<close>

theorem position_only_from_server:
  "position (updatePlayerInterpolation s) = position s
   \<and> position (fst (movementLoop e s)) = position s
   \<and> position (resizeCanvas innerWidth innerHeight s) = position s
   \<and> position (handle_player_joined S2N e player avatar s) = position s
   \<and> position (handle_player_left playerId s) = position s
   \<and> position (handle_chat username message s) = position s
   \<and> (\<not> carries_position ev \<longrightarrow> position (fst (step S2N e ev s)) = position s)"
  using step_position [of ev S2N e s]
  by (simp add: position_def updatePlayerInterpolation_def movementLoop_me resizeCanvas_def
        updateCamera_fields handle_player_joined_def handle_player_left_def handle_chat_def
        byId_set_fields split: option.splits ident.splits)

lemma joined_position: "position joined = (100, 200)"
  unfolding joined_def by code_simp

theorem position_only_from_server_witness:
  "position joined = (100, 200)
   \<and> \<not> carries_position AnimationFrame
   \<and> position (fst (step no_numeric_strings \<lparr>now = 40, ws_open = True\<rparr> AnimationFrame joined)) = (100, 200)
   \<and> \<not> carries_position MovementTimer
   \<and> position (fst (step no_numeric_strings \<lparr>now = 40, ws_open = True\<rparr> MovementTimer joined)) = (100, 200)"
  using position_only_from_server
     [where s = joined and ev = AnimationFrame and ?S2N = no_numeric_strings
        and e = "\<lparr>now = 40, ws_open = True\<rparr>"]
    position_only_from_server
     [where s = joined and ev = MovementTimer and ?S2N = no_numeric_strings
        and e = "\<lparr>now = 40, ws_open = True\<rparr>"]
    joined_position
  by simp

subsection \<open>Position updates from the server\<close>

lemma move_other_me: "me (move_other S2N e entry s) = me s"
  using erased_fields(2) [OF erase_move_other] .

lemma byId_get_own: "byId_get s k = Some (Own player) \<longleftrightarrow> byId s k = Some player"
  by (auto simp: byId_get_def Object_prototype_get_def split: option.splits if_splits)

lemma move_other_absent:
  "byId s k = None \<Longrightarrow> byId (move_other S2N e entry s) k = None"
  by (auto simp: move_other_def byId_get_own split: prod.splits option.splits found.splits)

lemma byId_get_plain:
  assumes "byId s k = None" and "k \<noteq> ''__proto__''" and "k \<notin> set Object_prototype_functions"
  shows "byId_get s k = None \<or> byId_get s k = Some Primitive"
  using assms by (auto simp: byId_get_def Object_prototype_get_def split: option.splits)

lemma move_other_skip:
  assumes "byId s (fst entry) = None" and "fst entry \<noteq> ''__proto__''"
    and "fst entry \<notin> set Object_prototype_functions"
  shows "move_other S2N e entry s = s"
  using byId_get_plain [OF assms] by (auto simp: move_other_def split: prod.splits)

lemma fold_move_other_absent:
  "byId s k = None \<Longrightarrow> byId (fold (move_other S2N e) ps s) k = None"
  by (induction ps arbitrary: s) (simp_all add: move_other_absent)

lemma fold_move_other_ignores:
  assumes "byId s k = None" and "k \<noteq> ''__proto__''" and "k \<notin> set Object_prototype_functions"
  shows "fold (move_other S2N e) (filter (\<lambda>entry. fst entry \<noteq> k) ps) s
       = fold (move_other S2N e) ps s"
  using assms(1)
proof (induction ps arbitrary: s)
  case Nil
  then show ?case by simp
next
  case (Cons entry ps)
  show ?case
  proof (cases "fst entry = k")
    case True
    then have "move_other S2N e entry s = s"
      using Cons.prems assms(2,3) by (intro move_other_skip) simp_all
    then show ?thesis using True Cons by simp
  next
    case False
    have "byId (move_other S2N e entry s) k = None" using Cons.prems by (rule move_other_absent)
    then show ?thesis using False Cons.IH by simp
  qed
qed

lemma map_of_filter_other:
  "k' \<noteq> k \<Longrightarrow> map_of (filter (\<lambda>entry. fst entry \<noteq> k) ps) k' = map_of ps k'"
  by (induction ps) auto

text \<open>
  What the test of the \<open>players_moved\<close> loop does achieve. An identifier that is neither
  the local one nor a key of the remote players is ignored when it is not \<open>__proto__\<close>
  and not the name of a member function of \<open>Object.prototype\<close>: no entry is created for
  it, and the message has the effect it would have without that identifier.
\<close>

lemma players_moved_ignores_plain:
  assumes "k \<noteq> key_of (me_id (me s))" and "byId s k = None"
    and "k \<noteq> ''__proto__''" and "k \<notin> set Object_prototype_functions"
  shows "byId (handle_players_moved S2N e (Some ps) s) k = None
       \<and> handle_players_moved S2N e (Some ps) s
           = handle_players_moved S2N e (Some (filter (\<lambda>entry. fst entry \<noteq> k) ps)) s"
proof -
  define s1 where "s1 = (case players_get s ps (key_of (me_id (me s))) of
                      None \<Rightarrow> s
                    | Some myUpdate \<Rightarrow>
                        updateCamera
                          (s\<lparr>me := (me s)\<lparr>me_x := bitor0 S2N (found_x myUpdate),
                                           me_y := bitor0 S2N (found_y myUpdate),
                                           me_facing :=
                                             js_or (found_facing s myUpdate) (me_facing (me s)),
                                           me_animationFrame :=
                                             bitor0 S2N (found_animationFrame s myUpdate)\<rparr>\<rparr>))"
  have b1: "byId s1 k = None"
    using assms(2) by (simp add: s1_def updateCamera_fields split: option.splits)
  have full: "handle_players_moved S2N e (Some ps) s = fold (move_other S2N e) ps s1"
    by (simp add: handle_players_moved_def Let_def s1_def)
  have "map_of (filter (\<lambda>entry. fst entry \<noteq> k) ps) (key_of (me_id (me s)))
      = map_of ps (key_of (me_id (me s)))"
    using assms(1) by (intro map_of_filter_other) simp
  then have "players_get s (filter (\<lambda>entry. fst entry \<noteq> k) ps) (key_of (me_id (me s)))
      = players_get s ps (key_of (me_id (me s)))"
    by (simp add: players_get_def)
  then have less: "handle_players_moved S2N e (Some (filter (\<lambda>entry. fst entry \<noteq> k) ps)) s
      = fold (move_other S2N e) (filter (\<lambda>entry. fst entry \<noteq> k) ps) s1"
    by (simp add: handle_players_moved_def Let_def s1_def)
  show ?thesis
    unfolding full less
    using fold_move_other_absent [OF b1] fold_move_other_ignores [OF b1 assms(3,4)] by simp
qed

lemma two_players_keys:
  "me_id (me two_players) = IdString ''42''" "byId two_players ''9'' = None"
  unfolding two_players_def by code_simp+

text \<open>
  C8. The test \<open>state.otherPlayers.byId[playerId]\<close> of the \<open>players_moved\<close> loop is meant
  to skip the identifiers the map does not hold, and misses one case: the lookup goes
  through the prototype chain. In the state after the join of player 42 beside player 7,
  \<open>__proto__\<close> is neither the local identifier nor a key of the map; still the update
  sent under it is not ignored. The lookup finds \<open>Object.prototype\<close>, and the five
  assignments land there: the state differs from the one the message without that
  identifier leaves. Every object inherits what was written: an update of the local
  player, and one of player 7, that carry no animation frame then store the frame 2 of
  that update, where they store 0 without it.
\<close>

theorem players_moved_writes_prototype:
  "''__proto__'' \<noteq> key_of (me_id (me two_players))
   \<and> byId two_players ''__proto__'' = None
   \<and> objectPrototype two_players = None
   \<and> objectPrototype polluted
       = Some \<lparr>w_targetX = 300, w_targetY = 400, w_facing = JString ''east'',
               w_animationFrame = 2, w_lastUpdate = 50\<rparr>
   \<and> polluted \<noteq> handle_players_moved no_numeric_strings \<lparr>now = 50, ws_open = True\<rparr>
                   (Some []) two_players
   \<and> me_animationFrame (me (handle_players_moved no_numeric_strings \<lparr>now = 60, ws_open = True\<rparr>
                               (Some [(''42'', bare_update)]) polluted)) = 2
   \<and> me_animationFrame (me (handle_players_moved no_numeric_strings \<lparr>now = 60, ws_open = True\<rparr>
                               (Some [(''42'', bare_update)]) two_players)) = 0
   \<and> map_option rp_animationFrame
        (byId (handle_players_moved no_numeric_strings \<lparr>now = 60, ws_open = True\<rparr>
                 (Some [(''7'', bare_update)]) polluted) ''7'') = Some 2
   \<and> map_option rp_animationFrame
        (byId (handle_players_moved no_numeric_strings \<lparr>now = 60, ws_open = True\<rparr>
                 (Some [(''7'', bare_update)]) two_players) ''7'') = Some 0"
proof -
  have 1: "''__proto__'' \<noteq> key_of (me_id (me two_players))"
    by (simp add: two_players_keys)
  have 2: "byId two_players ''__proto__'' = None"
    unfolding two_players_def by code_simp
  have 3: "objectPrototype two_players = None"
    unfolding two_players_def by code_simp
  have 4: "objectPrototype polluted
       = Some \<lparr>w_targetX = 300, w_targetY = 400, w_facing = JString ''east'',
               w_animationFrame = 2, w_lastUpdate = 50\<rparr>"
    unfolding polluted_def two_players_def by code_simp
  have "objectPrototype (handle_players_moved no_numeric_strings \<lparr>now = 50, ws_open = True\<rparr>
                   (Some []) two_players) = None"
    unfolding two_players_def by code_simp
  then have 5: "polluted \<noteq> handle_players_moved no_numeric_strings \<lparr>now = 50, ws_open = True\<rparr>
                   (Some []) two_players"
    using 4 by auto
  have 6: "me_animationFrame (me (handle_players_moved no_numeric_strings \<lparr>now = 60, ws_open = True\<rparr>
                               (Some [(''42'', bare_update)]) polluted)) = 2"
    unfolding polluted_def two_players_def by code_simp
  have 7: "me_animationFrame (me (handle_players_moved no_numeric_strings \<lparr>now = 60, ws_open = True\<rparr>
                               (Some [(''42'', bare_update)]) two_players)) = 0"
    unfolding two_players_def by code_simp
  have 8: "map_option rp_animationFrame
        (byId (handle_players_moved no_numeric_strings \<lparr>now = 60, ws_open = True\<rparr>
                 (Some [(''7'', bare_update)]) polluted) ''7'') = Some 2"
    unfolding polluted_def two_players_def by code_simp
  have 9: "map_option rp_animationFrame
        (byId (handle_players_moved no_numeric_strings \<lparr>now = 60, ws_open = True\<rparr>
                 (Some [(''7'', bare_update)]) two_players) ''7'') = Some 0"
    unfolding two_players_def by code_simp
  show ?thesis using 1 2 3 4 5 6 7 8 9 by blast
qed

lemma move_other_elsewhere:
  "fst entry \<noteq> k \<Longrightarrow> byId (move_other S2N e entry s) k = byId s k"
  by (auto simp: move_other_def split: prod.splits option.splits found.splits)

lemma fold_move_other_elsewhere:
  "k \<notin> fst ` set ps \<Longrightarrow> byId (fold (move_other S2N e) ps s) k = byId s k"
  by (induction ps arbitrary: s) (auto simp: move_other_elsewhere)

lemma fold_move_other_me: "me (fold (move_other S2N e) ps s) = me s"
  using erased_fields(2) [OF erase_fold_move] .

lemma wire_animationFrame_own:
  "pd_animationFrame u \<noteq> JUndefined \<Longrightarrow> wire_animationFrame s u = pd_animationFrame u"
  by (simp add: wire_animationFrame_def)

lemma move_other_known:
  assumes "IdString k \<noteq> me_id (me s)" and "byId s k = Some p"
  shows "byId (move_other S2N e (k, u) s) k = Some (assign_remote S2N e s u p)"
proof -
  have "byId_get s k = Some (Own p)" using assms(2) by (simp add: byId_get_own)
  then show ?thesis using assms(1) by (simp add: move_other_def)
qed

lemma fold_move_other_known:
  assumes "distinct (map fst ps)" and "map_of ps k = Some u"
    and "IdString k \<noteq> me_id (me s)" and "byId s k = Some p"
  shows "\<exists>s0. byId (fold (move_other S2N e) ps s) k = Some (assign_remote S2N e s0 u p)"
  using assms
proof (induction ps arbitrary: s)
  case Nil
  then show ?case by simp
next
  case (Cons entry ps)
  obtain k' u' where entry: "entry = (k', u')" by (cases entry)
  show ?case
  proof (cases "k' = k")
    case True
    then have u: "u' = u" using Cons.prems(2) entry by simp
    have notin: "k \<notin> fst ` set ps" using Cons.prems(1) entry True by auto
    have "byId (move_other S2N e entry s) k = Some (assign_remote S2N e s u p)"
      unfolding entry True u using Cons.prems(3,4) by (rule move_other_known)
    then have "byId (fold (move_other S2N e) (entry # ps) s) k
        = Some (assign_remote S2N e s u p)"
      using fold_move_other_elsewhere [OF notin] by simp
    then show ?thesis by blast
  next
    case False
    have 1: "distinct (map fst ps)" using Cons.prems(1) by simp
    have 2: "map_of ps k = Some u" using Cons.prems(2) entry False by simp
    have 3: "IdString k \<noteq> me_id (me (move_other S2N e entry s))"
      using Cons.prems(3) by (simp add: move_other_me)
    have 4: "byId (move_other S2N e entry s) k = Some p"
      using Cons.prems(4) False entry by (simp add: move_other_elsewhere)
    show ?thesis using Cons.IH [OF 1 2 3 4] by simp
  qed
qed

lemma wrap32_id: "- (2 ^ 31) \<le> n \<Longrightarrow> n < 2 ^ 31 \<Longrightarrow> wrap32 n = n"
proof -
  assume a: "- (2 ^ 31) \<le> n" "n < 2 ^ 31"
  show ?thesis
  proof (cases "0 \<le> n")
    case True
    then have "n mod 2 ^ 32 = n" using a by simp
    then show ?thesis using a by (simp add: wrap32_def Let_def)
  next
    case False
    then have "0 \<le> n + 2 ^ 32" "n + 2 ^ 32 < 2 ^ 32" using a by simp_all
    then have "(n + 2 ^ 32) mod 2 ^ 32 = n + 2 ^ 32" by (rule mod_pos_pos_trivial)
    then have "n mod 2 ^ 32 = n + 2 ^ 32" by simp
    then show ?thesis using a by (simp add: wrap32_def Let_def)
  qed
qed

lemma js_trunc_small:
  assumes "\<bar>r\<bar> < 2 ^ 31" shows "- (2 ^ 31) \<le> js_trunc r" and "js_trunc r < 2 ^ 31"
proof -
  have "r < of_int (2 ^ 31)" "of_int (- (2 ^ 31)) < r" using assms by simp_all
  then have "\<lfloor>r\<rfloor> < 2 ^ 31" "- (2 ^ 31) < \<lceil>r\<rceil>"
    by (simp_all only: floor_less_iff less_ceiling_iff)
  moreover have "\<lfloor>r\<rfloor> \<le> \<lceil>r\<rceil>" by (rule floor_le_ceiling)
  ultimately show "- (2 ^ 31) \<le> js_trunc r" and "js_trunc r < 2 ^ 31"
    by (simp_all add: js_trunc_def le_floor_iff ceiling_less_iff)
qed

text \<open>
  C10, as the code has it. A \<open>players_moved\<close> update of a known player, the local one or
  a remote one the map holds, stores \<open>value | 0\<close> for x and y, and for the animation
  frame when the update carries one, whatever was stored before: into the local
  player's position, and into a remote player's target (its displayed position stays).
  \<open>value | 0\<close> is 0 for an absent x or y, for \<open>null\<close>, for \<open>false\<close>, for a NaN or an
  infinity and for a string that converts to NaN; it is 1 for \<open>true\<close>; a string counts
  as the number it converts to; a finite number is truncated toward zero and wrapped into
  the signed 32-bit range, which leaves the truncation as it is below \<open>2 ^ 31\<close>.
\<close>

theorem players_moved_stores_bitor:
  fixes S2N :: "string \<Rightarrow> number" and e :: env and s :: game_state
    and ps :: "(string \<times> player_data) list"
  assumes "distinct (map fst ps)"
  defines "s' \<equiv> handle_players_moved S2N e (Some ps) s"
  shows "(map_of ps (key_of (me_id (me s))) = Some u \<longrightarrow>
            me_x (me s') = bitor0 S2N (pd_x u) \<and> me_y (me s') = bitor0 S2N (pd_y u)
            \<and> (pd_animationFrame u \<noteq> JUndefined \<longrightarrow>
                 me_animationFrame (me s') = bitor0 S2N (pd_animationFrame u)))
       \<and> (map_of ps k = Some v \<and> IdString k \<noteq> me_id (me s) \<and> byId s k = Some p \<longrightarrow>
            (\<exists>p'. byId s' k = Some p'
               \<and> targetX p' = Some (of_int (bitor0 S2N (pd_x v)))
               \<and> targetY p' = Some (of_int (bitor0 S2N (pd_y v)))
               \<and> (pd_animationFrame v \<noteq> JUndefined \<longrightarrow>
                    rp_animationFrame p' = bitor0 S2N (pd_animationFrame v))
               \<and> rp_x p' = rp_x p \<and> rp_y p' = rp_y p))
       \<and> (pd_x u = JUndefined \<longrightarrow> bitor0 S2N (pd_x u) = 0)
       \<and> (pd_y u = JUndefined \<longrightarrow> bitor0 S2N (pd_y u) = 0)
       \<and> bitor0 S2N JNull = 0
       \<and> bitor0 S2N (JBool False) = 0 \<and> bitor0 S2N (JBool True) = 1
       \<and> bitor0 S2N (JNumber NaN) = 0 \<and> bitor0 S2N (JNumber PosInf) = 0
       \<and> bitor0 S2N (JNumber NegInf) = 0
       \<and> bitor0 S2N (JString str) = bitor0 S2N (JNumber (S2N str))
       \<and> (S2N str = NaN \<longrightarrow> bitor0 S2N (JString str) = 0)
       \<and> bitor0 S2N (JNumber (Fin r)) = wrap32 (if 0 \<le> r then \<lfloor>r\<rfloor> else \<lceil>r\<rceil>)
       \<and> (\<bar>r\<bar> < 2 ^ 31 \<longrightarrow> bitor0 S2N (JNumber (Fin r)) = (if 0 \<le> r then \<lfloor>r\<rfloor> else \<lceil>r\<rceil>))"
proof -
  define s1 where "s1 = (case players_get s ps (key_of (me_id (me s))) of
                      None \<Rightarrow> s
                    | Some myUpdate \<Rightarrow>
                        updateCamera
                          (s\<lparr>me := (me s)\<lparr>me_x := bitor0 S2N (found_x myUpdate),
                                           me_y := bitor0 S2N (found_y myUpdate),
                                           me_facing :=
                                             js_or (found_facing s myUpdate) (me_facing (me s)),
                                           me_animationFrame :=
                                             bitor0 S2N (found_animationFrame s myUpdate)\<rparr>\<rparr>))"
  have full: "s' = fold (move_other S2N e) ps s1"
    by (simp add: s'_def handle_players_moved_def Let_def s1_def)
  have me': "me s' = me s1" unfolding full by (rule fold_move_other_me)
  have local: "map_of ps (key_of (me_id (me s))) = Some u \<longrightarrow>
            me_x (me s') = bitor0 S2N (pd_x u) \<and> me_y (me s') = bitor0 S2N (pd_y u)
            \<and> (pd_animationFrame u \<noteq> JUndefined \<longrightarrow>
                 me_animationFrame (me s') = bitor0 S2N (pd_animationFrame u))"
    unfolding me'
    by (simp add: s1_def players_get_def updateCamera_fields wire_animationFrame_own)
  have id1: "me_id (me s1) = me_id (me s)" and by1: "byId s1 = byId s"
    by (simp_all add: s1_def updateCamera_fields split: option.splits)
  have remote: "map_of ps k = Some v \<and> IdString k \<noteq> me_id (me s) \<and> byId s k = Some p \<longrightarrow>
            (\<exists>p'. byId s' k = Some p'
               \<and> targetX p' = Some (of_int (bitor0 S2N (pd_x v)))
               \<and> targetY p' = Some (of_int (bitor0 S2N (pd_y v)))
               \<and> (pd_animationFrame v \<noteq> JUndefined \<longrightarrow>
                    rp_animationFrame p' = bitor0 S2N (pd_animationFrame v))
               \<and> rp_x p' = rp_x p \<and> rp_y p' = rp_y p)"
  proof (intro impI, elim conjE)
    assume a: "map_of ps k = Some v" "IdString k \<noteq> me_id (me s)" "byId s k = Some p"
    have "\<exists>s0. byId s' k = Some (assign_remote S2N e s0 v p)"
      unfolding full using assms(1) a by (intro fold_move_other_known) (simp_all add: id1 by1)
    then obtain s0 where "byId s' k = Some (assign_remote S2N e s0 v p)" by blast
    then show "\<exists>p'. byId s' k = Some p'
               \<and> targetX p' = Some (of_int (bitor0 S2N (pd_x v)))
               \<and> targetY p' = Some (of_int (bitor0 S2N (pd_y v)))
               \<and> (pd_animationFrame v \<noteq> JUndefined \<longrightarrow>
                    rp_animationFrame p' = bitor0 S2N (pd_animationFrame v))
               \<and> rp_x p' = rp_x p \<and> rp_y p' = rp_y p"
      by (simp add: assign_remote_def wire_animationFrame_own)
  qed
  have small: "\<bar>r\<bar> < 2 ^ 31 \<longrightarrow> bitor0 S2N (JNumber (Fin r)) = (if 0 \<le> r then \<lfloor>r\<rfloor> else \<lceil>r\<rceil>)"
  proof
    assume "\<bar>r\<bar> < 2 ^ 31"
    then have "wrap32 (js_trunc r) = js_trunc r"
      using js_trunc_small [of r] by (intro wrap32_id)
    then show "bitor0 S2N (JNumber (Fin r)) = (if 0 \<le> r then \<lfloor>r\<rfloor> else \<lceil>r\<rceil>)"
      by (simp add: bitor0_def js_trunc_def)
  qed
  have table: "pd_x u = JUndefined \<longrightarrow> bitor0 S2N (pd_x u) = 0"
    "pd_y u = JUndefined \<longrightarrow> bitor0 S2N (pd_y u) = 0" "bitor0 S2N JNull = 0"
    "bitor0 S2N (JBool False) = 0" "bitor0 S2N (JBool True) = 1"
    "bitor0 S2N (JNumber NaN) = 0" "bitor0 S2N (JNumber PosInf) = 0"
    "bitor0 S2N (JNumber NegInf) = 0"
    "bitor0 S2N (JString str) = bitor0 S2N (JNumber (S2N str))"
    "S2N str = NaN \<longrightarrow> bitor0 S2N (JString str) = 0"
    "bitor0 S2N (JNumber (Fin r)) = wrap32 (if 0 \<le> r then \<lfloor>r\<rfloor> else \<lceil>r\<rceil>)"
    by (simp_all add: bitor0_def js_trunc_def wrap32_def)
  show ?thesis using local remote small table by blast
qed

lemma two_players_seven:
  "\<exists>p. byId two_players ''7'' = Some p \<and> rp_x p = 300 \<and> rp_y p = 400"
proof -
  have "map_option (\<lambda>p. (rp_x p, rp_y p)) (byId two_players ''7'') = Some (300, 400)"
    unfolding two_players_def by code_simp
  then show ?thesis by auto
qed

theorem players_moved_stores_bitor_witness:
  "distinct (map fst [(''42'', odd_update), (''7'', odd_update)])
   \<and> pd_x odd_update = JBool True \<and> pd_y odd_update = JUndefined
   \<and> pd_animationFrame odd_update = JNumber (Fin (5/2))
   \<and> me_x (me odd_moved) = 1 \<and> me_y (me odd_moved) = 0 \<and> me_animationFrame (me odd_moved) = 2
   \<and> (\<exists>p'. byId odd_moved ''7'' = Some p' \<and> targetX p' = Some 1 \<and> targetY p' = Some 0
          \<and> rp_animationFrame p' = 2 \<and> rp_x p' = 300 \<and> rp_y p' = 400)
   \<and> bitor0 no_numeric_strings (JString ''north'') = 0
   \<and> bitor0 no_numeric_strings (JNumber (Fin (- 5/2))) = - 2"
proof -
  obtain p where p: "byId two_players ''7'' = Some p" "rp_x p = 300" "rp_y p = 400"
    using two_players_seven by blast
  have d: "distinct (map fst [(''42'', odd_update), (''7'', odd_update)])" by simp
  have m: "map_of [(''42'', odd_update), (''7'', odd_update)] (key_of (me_id (me two_players)))
      = Some odd_update"
    "map_of [(''42'', odd_update), (''7'', odd_update)] ''7'' = Some odd_update"
    "IdString ''7'' \<noteq> me_id (me two_players)"
    by (simp_all add: two_players_keys)
  have n: "no_numeric_strings ''north'' = NaN" "\<bar>- 5/2 :: real\<bar> < 2 ^ 31" "\<bar>5/2 :: real\<bar> < 2 ^ 31"
    by (simp_all add: no_numeric_strings_def)
  have c: "\<lceil>- 5/2 :: real\<rceil> = - 2" "\<lfloor>5/2 :: real\<rfloor> = 2" by linarith+
  note t1 = players_moved_stores_bitor [OF d, of two_players odd_update no_numeric_strings
      "\<lparr>now = 50, ws_open = True\<rparr>" "''7''" odd_update p "''north''" "- 5/2", folded odd_moved_def]
  note t2 = players_moved_stores_bitor [OF d, of two_players odd_update no_numeric_strings
      "\<lparr>now = 50, ws_open = True\<rparr>" "''7''" odd_update p "''north''" "5/2", folded odd_moved_def]
  have o: "pd_x odd_update = JBool True" "pd_y odd_update = JUndefined"
    "pd_animationFrame odd_update = JNumber (Fin (5/2))"
    by (simp_all add: odd_update_def)
  show ?thesis using t1 t2 m p n c d o by auto
qed

text \<open>
  C10 as stated fails for a value that is not a number and does not convert to 0: an
  \<open>x\<close> of \<open>true\<close> is stored as 1.
\<close>

theorem true_is_stored_as_one:
  "pd_x odd_update = JBool True
   \<and> me_x (me (handle_players_moved no_numeric_strings \<lparr>now = 50, ws_open = True\<rparr>
                 (Some [(''42'', odd_update)]) two_players)) = 1
   \<and> map_option targetX
        (byId (handle_players_moved no_numeric_strings \<lparr>now = 50, ws_open = True\<rparr>
                 (Some [(''7'', odd_update)]) two_players) ''7'') = Some (Some 1)"
proof -
  have 1: "pd_x odd_update = JBool True" by (simp add: odd_update_def)
  have 2: "me_x (me (handle_players_moved no_numeric_strings \<lparr>now = 50, ws_open = True\<rparr>
                 (Some [(''42'', odd_update)]) two_players)) = 1"
    unfolding two_players_def by code_simp
  have 3: "map_option targetX
        (byId (handle_players_moved no_numeric_strings \<lparr>now = 50, ws_open = True\<rparr>
                 (Some [(''7'', odd_update)]) two_players) ''7'') = Some (Some 1)"
    unfolding two_players_def by code_simp
  show ?thesis using 1 2 3 by simp
qed

subsection \<open>Interpolation\<close>

lemma wrap32_range: "- (2 ^ 31) \<le> wrap32 n" "wrap32 n < 2 ^ 31"
proof -
  have "0 \<le> n mod 4294967296" "n mod 4294967296 < 4294967296" by simp_all
  then show "- (2 ^ 31) \<le> wrap32 n" "wrap32 n < 2 ^ 31"
    by (auto simp add: wrap32_def Let_def)
qed

lemma ToInt32_range: "- (2 ^ 31) \<le> ToInt32 n" "ToInt32 n < 2 ^ 31"
  using wrap32_range by (cases n; simp)+

lemma coord_ok_bitor0: "coord_ok (of_int (bitor0 S2N v))"
proof -
  define n where "n = bitor0 S2N v"
  have r: "- (2 ^ 31) \<le> n" "n < 2 ^ 31"
    using ToInt32_range [of "ToNumber S2N v"] by (simp_all add: n_def bitor0_def)
  then have "\<bar>n\<bar> \<le> 2 ^ 31" by simp
  then have "real_of_int \<bar>n\<bar> \<le> real_of_int (2 ^ 31)" by (simp only: of_int_le_iff)
  then have a: "\<bar>real_of_int n\<bar> \<le> 2 ^ 31" by simp
  have "\<bar>n\<bar> \<le> 2 ^ 53" using r by simp
  then have "fl (of_int n) = of_int n" by (rule fl_of_int)
  then show ?thesis using a by (simp add: coord_ok_def is_double_def n_def)
qed

lemma rp_wf_new_remote: "rp_wf (new_remote S2N e s pid pd)"
  by (simp add: rp_wf_def new_remote_def coord_ok_bitor0)

lemma coord_ok_approach:
  assumes "coord_ok x" and "coord_ok t" shows "coord_ok (approach x t)"
proof -
  have x: "fl x = x" and t: "fl t = t" using assms by (simp_all add: coord_ok_def is_double_def)
  have d: "is_double (approach x t)" by (simp add: is_double_def approach_def fl_idem)
  have "\<bar>approach x t\<bar> \<le> max \<bar>x\<bar> \<bar>t\<bar>"
  proof (cases "x \<le> t")
    case True
    from approach_between_up [OF x t True] show ?thesis by linarith
  next
    case False
    then have "t \<le> x" by simp
    from approach_between_down [OF x t this] show ?thesis by linarith
  qed
  also have "\<dots> \<le> 2 ^ 31" using assms by (simp add: coord_ok_def)
  finally show ?thesis using d by (simp add: coord_ok_def)
qed

lemma rp_wf_interpolate: "rp_wf p \<Longrightarrow> rp_wf (interpolate p)"
  by (auto simp: rp_wf_def interpolate_def Let_def coord_ok_approach split: option.splits)

lemma approach_not_farther:
  assumes "is_double x" and "is_double t"
  shows "\<bar>t - approach x t\<bar> \<le> \<bar>t - x\<bar>"
    and "sgn (t - approach x t) = sgn (t - x) \<or> approach x t = t"
proof -
  have x: "fl x = x" and t: "fl t = t" using assms by (simp_all add: is_double_def)
  have "\<bar>t - approach x t\<bar> \<le> \<bar>t - x\<bar>
      \<and> (sgn (t - approach x t) = sgn (t - x) \<or> approach x t = t)"
  proof (cases "x \<le> t")
    case True
    from approach_between_up [OF x t True] show ?thesis by (auto simp: sgn_if)
  next
    case False
    then have "t \<le> x" by simp
    from approach_between_down [OF x t this] show ?thesis by (auto simp: sgn_if)
  qed
  then show "\<bar>t - approach x t\<bar> \<le> \<bar>t - x\<bar>"
    and "sgn (t - approach x t) = sgn (t - x) \<or> approach x t = t" by simp_all
qed

lemma approach_closer:
  assumes "coord_ok x" and "coord_ok t" and "1/2 < \<bar>fl (t - x)\<bar>"
  shows "\<bar>t - approach x t\<bar> < \<bar>t - x\<bar>"
proof -
  have x: "fl x = x" "\<bar>x\<bar> \<le> 2 ^ 31" and t: "fl t = t" "\<bar>t\<bar> \<le> 2 ^ 31"
    using assms by (simp_all add: coord_ok_def is_double_def)
  show ?thesis
  proof (cases "0 \<le> fl (t - x)")
    case True
    then have far: "1/2 < fl (t - x)" using assms(3) by simp
    have "x \<le> t"
    proof (rule ccontr)
      assume "\<not> x \<le> t"
      then have "t - x \<le> 0" by simp
      then have "fl (t - x) \<le> fl 0" by (rule fl_mono)
      with far show False by (simp add: fl_zero)
    qed
    from approach_progress_up [OF x(1) t(1) x(2) t(2) far] approach_between_up [OF x(1) t(1) this]
    show ?thesis by linarith
  next
    case False
    then have far: "fl (t - x) < - (1/2)" using assms(3) by simp
    have "t \<le> x"
    proof (rule ccontr)
      assume "\<not> t \<le> x"
      then have "0 \<le> t - x" by simp
      then have "fl 0 \<le> fl (t - x)" by (rule fl_mono)
      with far show False by (simp add: fl_zero)
    qed
    from approach_progress_down [OF x(1) t(1) x(2) t(2) far] approach_between_down [OF x(1) t(1) this]
    show ?thesis by linarith
  qed
qed

lemma fl_small:
  assumes "\<bar>d\<bar> \<le> 1/2" shows "\<bar>fl d\<bar> \<le> 1/2"
proof -
  have "fl d \<le> fl (1/2)" using assms by (intro fl_mono) simp
  moreover have "fl (- (1/2)) \<le> fl d" using assms by (intro fl_mono) linarith
  ultimately show ?thesis by (simp add: fl_half fl_minus)
qed

lemma closer_sqrt:
  fixes a b a' b' :: real
  assumes "\<bar>a'\<bar> \<le> \<bar>a\<bar>" and "\<bar>b'\<bar> \<le> \<bar>b\<bar>" and "\<bar>a'\<bar> < \<bar>a\<bar> \<or> \<bar>b'\<bar> < \<bar>b\<bar>"
  shows "sqrt (a'\<^sup>2 + b'\<^sup>2) < sqrt (a\<^sup>2 + b\<^sup>2)"
proof -
  have 1: "a'\<^sup>2 \<le> a\<^sup>2" "b'\<^sup>2 \<le> b\<^sup>2" using assms(1,2) by (simp_all add: abs_le_square_iff)
  have "a'\<^sup>2 < a\<^sup>2 \<or> b'\<^sup>2 < b\<^sup>2"
    using assms(3) power_strict_mono [of "\<bar>a'\<bar>" "\<bar>a\<bar>" 2] power_strict_mono [of "\<bar>b'\<bar>" "\<bar>b\<bar>" 2]
    by auto
  with 1 have "a'\<^sup>2 + b'\<^sup>2 < a\<^sup>2 + b\<^sup>2" by linarith
  then show ?thesis by simp
qed


lemma players_wf_store_other: "players_wf s \<Longrightarrow> players_wf (store_other S2N e entry s)"
  by (auto simp: players_wf_def store_other_def byId_set_def rp_wf_new_remote
        split: prod.splits if_splits)

lemma players_wf_fold_store: "players_wf s \<Longrightarrow> players_wf (fold (store_other S2N e) ps s)"
  by (induction ps arbitrary: s) (simp_all add: players_wf_store_other)

lemma rp_wf_assign_remote: "rp_wf player \<Longrightarrow> rp_wf (assign_remote S2N e s playerUpdate player)"
  by (simp add: rp_wf_def assign_remote_def coord_ok_bitor0)

lemma players_wf_move_other:
  assumes "players_wf s" shows "players_wf (move_other S2N e entry s)"
proof -
  obtain playerId playerUpdate where entry: "entry = (playerId, playerUpdate)" by (cases entry)
  show ?thesis
  proof (cases "\<exists>player. IdString playerId \<noteq> me_id (me s)
                  \<and> byId_get s playerId = Some (Own player)")
    case True
    then obtain player where p: "IdString playerId \<noteq> me_id (me s)"
      "byId_get s playerId = Some (Own player)" by blast
    have "byId s playerId = Some player" using p(2) by (simp add: byId_get_own)
    then have "rp_wf player" using assms by (simp add: players_wf_def)
    then have "rp_wf (assign_remote S2N e s playerUpdate player)" by (rule rp_wf_assign_remote)
    then show ?thesis using assms p by (auto simp: entry move_other_def players_wf_def)
  next
    case False
    then have "byId (move_other S2N e entry s) = byId s"
      by (auto simp: entry move_other_def split: option.splits found.splits)
    then show ?thesis using assms by (simp add: players_wf_def)
  qed
qed

lemma players_wf_fold_move: "players_wf s \<Longrightarrow> players_wf (fold (move_other S2N e) ps s)"
  by (induction ps arbitrary: s) (simp_all add: players_wf_move_other)

lemma players_wf_cong: "byId s' = byId s \<Longrightarrow> players_wf s \<Longrightarrow> players_wf s'"
  by (simp add: players_wf_def)

lemma players_wf_updates:
  "players_wf (s\<lparr>me := m\<rparr>) = players_wf s"
  "players_wf (s\<lparr>joinsAwaitingCache := n\<rparr>) = players_wf s"
  "players_wf (updateCamera s) = players_wf s"
  by (simp_all add: players_wf_def updateCamera_fields)

lemma players_wf_handle_message:
  assumes "players_wf s" shows "players_wf (handle_message S2N e m s)"
proof (cases m)
  case (JoinGame success playerId players)
  have "players_wf (handle_join_game S2N e success playerId players s)"
    using assms
    by (auto simp: handle_join_game_def Let_def players_wf_updates
          intro!: players_wf_fold_store split: option.splits)
  with JoinGame show ?thesis by simp
next
  case (PlayersMoved players)
  have "players_wf (handle_players_moved S2N e players s)"
    using assms
    by (auto simp: handle_players_moved_def Let_def players_wf_updates
          intro!: players_wf_fold_move split: option.splits)
  with PlayersMoved show ?thesis by simp
next
  case (PlayerJoined player avatar)
  then show ?thesis using assms
    by (auto simp: handle_player_joined_def byId_set_def players_wf_def rp_wf_new_remote
          split: option.splits if_splits)
next
  case (PlayerLeft playerId)
  then show ?thesis using assms
    by (auto simp: handle_player_left_def players_wf_def split: ident.splits if_splits)
next
  case (Chat username message)
  then show ?thesis using assms by (simp add: handle_chat_def)
next
  case Unrecognized
  then show ?thesis using assms by simp
qed

lemma movementLoop_byId: "byId (fst (movementLoop e s)) = byId s"
  by (simp add: movementLoop_def Let_def)

lemma resume_join_game_byId: "byId (fst (resume_join_game e c s)) = byId s"
  by (simp add: resume_join_game_def Let_def startMovementLoop_def movementLoop_byId
        updateCamera_fields)

lemma players_wf_step:
  assumes "players_wf s" shows "players_wf (fst (step S2N e ev s))"
proof (cases ev)
  case AnimationFrame
  then show ?thesis using assms
    by (auto simp: render_def updatePlayerInterpolation_def players_wf_def rp_wf_interpolate)
next
  case (WsMessage m)
  then show ?thesis using assms by (simp add: players_wf_handle_message)
next
  case (AvatarsCached c)
  have "byId (fst (step S2N e ev s)) = byId s"
    using AvatarsCached
      resume_join_game_byId [of e c "s\<lparr>joinsAwaitingCache := joinsAwaitingCache s - 1\<rparr>"]
    by (cases "joinsAwaitingCache s") simp_all
  then show ?thesis using assms by (rule players_wf_cong)
next
  case MovementTimer
  then have "byId (fst (step S2N e ev s)) = byId s" by (simp add: movementLoop_byId)
  then show ?thesis using assms by (rule players_wf_cong)
qed (insert assms, simp_all add: players_wf_def resizeCanvas_def updateCamera_fields
       handleKeyDown_def handleKeyUp_def stopMovementLoop_def split: option.splits)

lemma players_wf_run: "players_wf s \<Longrightarrow> players_wf (fst (run S2N evs s))"
proof (induction evs arbitrary: s)
  case Nil
  then show ?case by simp
next
  case (Cons x evs)
  obtain e ev where x: "x = (e, ev)" by (cases x)
  have "players_wf (fst (step S2N e ev s))" using Cons.prems by (rule players_wf_step)
  then have "players_wf (fst (run S2N evs (fst (step S2N e ev s))))" by (rule Cons.IH)
  then show ?case by (simp add: x split_beta)
qed

lemma players_wf_init: "players_wf init"
  by (simp add: players_wf_def init_def)

lemma reachable_wf: "byId (fst (run S2N evs init)) k = Some p \<Longrightarrow> rp_wf p"
  using players_wf_run [OF players_wf_init, of S2N evs] by (simp add: players_wf_def)

lemma interpolate_closer:
  assumes wf: "rp_wf p" and tx: "targetX p = Some tx" and ty: "targetY p = Some ty"
    and far: "1/2 < \<bar>tx - rp_x p\<bar> \<or> 1/2 < \<bar>ty - rp_y p\<bar>"
  shows "\<bar>tx - rp_x (interpolate p)\<bar> \<le> \<bar>tx - rp_x p\<bar>"
    and "\<bar>ty - rp_y (interpolate p)\<bar> \<le> \<bar>ty - rp_y p\<bar>"
    and "\<bar>tx - rp_x (interpolate p)\<bar> < \<bar>tx - rp_x p\<bar> \<or> \<bar>ty - rp_y (interpolate p)\<bar> < \<bar>ty - rp_y p\<bar>"
    and "sgn (tx - rp_x (interpolate p)) = sgn (tx - rp_x p) \<or> rp_x (interpolate p) = tx"
    and "sgn (ty - rp_y (interpolate p)) = sgn (ty - rp_y p) \<or> rp_y (interpolate p) = ty"
proof -
  have ok: "coord_ok (rp_x p)" "coord_ok (rp_y p)" "coord_ok tx" "coord_ok ty"
    using wf tx ty by (simp_all add: rp_wf_def)
  then have dbl: "is_double (rp_x p)" "is_double (rp_y p)" "is_double tx" "is_double ty"
    by (simp_all add: coord_ok_def)
  show "\<bar>tx - rp_x (interpolate p)\<bar> \<le> \<bar>tx - rp_x p\<bar>"
    using approach_not_farther(1) [OF dbl(1) dbl(3)] by (simp add: interpolate_def tx ty Let_def)
  show "\<bar>ty - rp_y (interpolate p)\<bar> \<le> \<bar>ty - rp_y p\<bar>"
    using approach_not_farther(1) [OF dbl(2) dbl(4)] by (simp add: interpolate_def tx ty Let_def)
  show "sgn (tx - rp_x (interpolate p)) = sgn (tx - rp_x p) \<or> rp_x (interpolate p) = tx"
    using approach_not_farther(2) [OF dbl(1) dbl(3)] by (simp add: interpolate_def tx ty Let_def)
  show "sgn (ty - rp_y (interpolate p)) = sgn (ty - rp_y p) \<or> rp_y (interpolate p) = ty"
    using approach_not_farther(2) [OF dbl(2) dbl(4)] by (simp add: interpolate_def tx ty Let_def)
  show "\<bar>tx - rp_x (interpolate p)\<bar> < \<bar>tx - rp_x p\<bar> \<or> \<bar>ty - rp_y (interpolate p)\<bar> < \<bar>ty - rp_y p\<bar>"
  proof (cases "1/2 < \<bar>fl (tx - rp_x p)\<bar> \<or> 1/2 < \<bar>fl (ty - rp_y p)\<bar>")
    case True
    then have i: "interpolate p = p\<lparr>rp_x := approach (rp_x p) tx, rp_y := approach (rp_y p) ty\<rparr>"
      by (simp add: interpolate_def tx ty Let_def)
    from True show ?thesis
    proof
      assume "1/2 < \<bar>fl (tx - rp_x p)\<bar>"
      from approach_closer [OF ok(1) ok(3) this] show ?thesis by (simp add: i)
    next
      assume "1/2 < \<bar>fl (ty - rp_y p)\<bar>"
      from approach_closer [OF ok(2) ok(4) this] show ?thesis by (simp add: i)
    qed
  next
    case False
    then have "interpolate p = p\<lparr>rp_x := tx, rp_y := ty\<rparr>"
      by (simp add: interpolate_def tx ty Let_def)
    then show ?thesis using far by auto
  qed
qed

text \<open>
  C2. For every remote player of a reachable state whose target is more than 0.5 away on
  some axis, one interpolation tick brings the displayed position strictly nearer to the
  target, and never past it: on each axis the distance does not grow, and the sign of
  target minus displayed is kept or the displayed coordinate is the target.
\<close>

theorem interpolation_nears_target:
  assumes "byId (fst (run S2N evs init)) k = Some p"
    and "targetX p = Some tx" and "targetY p = Some ty"
    and "1/2 < \<bar>tx - rp_x p\<bar> \<or> 1/2 < \<bar>ty - rp_y p\<bar>"
  shows "\<exists>p'. byId (updatePlayerInterpolation (fst (run S2N evs init))) k = Some p'
       \<and> targetX p' = Some tx \<and> targetY p' = Some ty
       \<and> sqrt ((tx - rp_x p')\<^sup>2 + (ty - rp_y p')\<^sup>2) < sqrt ((tx - rp_x p)\<^sup>2 + (ty - rp_y p)\<^sup>2)
       \<and> \<bar>tx - rp_x p'\<bar> \<le> \<bar>tx - rp_x p\<bar> \<and> \<bar>ty - rp_y p'\<bar> \<le> \<bar>ty - rp_y p\<bar>
       \<and> (sgn (tx - rp_x p') = sgn (tx - rp_x p) \<or> rp_x p' = tx)
       \<and> (sgn (ty - rp_y p') = sgn (ty - rp_y p) \<or> rp_y p' = ty)"
proof -
  have wf: "rp_wf p" using assms(1) by (rule reachable_wf)
  note c = interpolate_closer [OF wf assms(2,3,4)]
  have t: "targetX (interpolate p) = Some tx" "targetY (interpolate p) = Some ty"
    using assms(2,3) by (simp_all add: interpolate_def Let_def)
  have b: "byId (updatePlayerInterpolation (fst (run S2N evs init))) k = Some (interpolate p)"
    using assms(1) by (simp add: updatePlayerInterpolation_def)
  have "sqrt ((tx - rp_x (interpolate p))\<^sup>2 + (ty - rp_y (interpolate p))\<^sup>2)
      < sqrt ((tx - rp_x p)\<^sup>2 + (ty - rp_y p)\<^sup>2)"
    using c(1,2,3) by (rule closer_sqrt)
  then show ?thesis using b t c(1,2,4,5) by simp
qed

lemma moved_seven:
  "\<exists>p. byId (fst (run no_numeric_strings moved_trace init)) ''7'' = Some p
       \<and> rp_x p = 300 \<and> rp_y p = 400 \<and> targetX p = Some 310 \<and> targetY p = Some 400"
proof -
  have "map_option (\<lambda>p. (rp_x p, rp_y p, targetX p, targetY p))
          (byId (fst (run no_numeric_strings moved_trace init)) ''7'')
        = Some (300, 400, Some 310, Some 400)"
    by code_simp
  then show ?thesis by auto
qed

lemma approach_300_310: "approach 300 310 = 301" "approach 400 400 = 400"
  unfolding approach_def interpolationSpeed_def by code_simp+

theorem interpolation_nears_target_witness:
  "\<exists>p p'. byId (fst (run no_numeric_strings moved_trace init)) ''7'' = Some p
     \<and> rp_x p = 300 \<and> rp_y p = 400 \<and> targetX p = Some 310 \<and> targetY p = Some 400
     \<and> 1/2 < \<bar>310 - rp_x p\<bar>
     \<and> byId (updatePlayerInterpolation (fst (run no_numeric_strings moved_trace init))) ''7'' = Some p'
     \<and> rp_x p' = 301 \<and> rp_y p' = 400
     \<and> sqrt ((310 - rp_x p')\<^sup>2 + (400 - rp_y p')\<^sup>2) < sqrt ((310 - rp_x p)\<^sup>2 + (400 - rp_y p)\<^sup>2)
     \<and> sgn (310 - rp_x p') = sgn (310 - rp_x p)"
proof -
  obtain p where p: "byId (fst (run no_numeric_strings moved_trace init)) ''7'' = Some p"
    "rp_x p = 300" "rp_y p = 400" "targetX p = Some 310" "targetY p = Some 400"
    using moved_seven by blast
  have far: "1/2 < \<bar>310 - rp_x p\<bar> \<or> 1/2 < \<bar>400 - rp_y p\<bar>" using p(2) by simp
  obtain p' where p': "byId (updatePlayerInterpolation (fst (run no_numeric_strings moved_trace init))) ''7'' = Some p'"
    "sqrt ((310 - rp_x p')\<^sup>2 + (400 - rp_y p')\<^sup>2) < sqrt ((310 - rp_x p)\<^sup>2 + (400 - rp_y p)\<^sup>2)"
    using interpolation_nears_target [OF p(1) p(4) p(5) far] by blast
  have "p' = interpolate p" using p'(1) p(1) by (simp add: updatePlayerInterpolation_def)
  then have x': "rp_x p' = 301" "rp_y p' = 400"
    using p(2-5) approach_300_310 by (simp_all add: interpolate_def Let_def fl_of_int [of 10, simplified])
  show ?thesis using p p' x' by (intro exI [of _ p] exI [of _ p']) simp
qed

text \<open>
  C3. A remote player whose target is within 0.5 of the displayed position on both axes
  is displayed exactly at the target after the tick.
\<close>

theorem interpolation_snaps:
  assumes "byId s k = Some p" and "targetX p = Some tx" and "targetY p = Some ty"
    and "\<bar>tx - rp_x p\<bar> \<le> 1/2" and "\<bar>ty - rp_y p\<bar> \<le> 1/2"
  shows "\<exists>p'. byId (updatePlayerInterpolation s) k = Some p' \<and> rp_x p' = tx \<and> rp_y p' = ty"
proof -
  have "\<bar>fl (tx - rp_x p)\<bar> \<le> 1/2" "\<bar>fl (ty - rp_y p)\<bar> \<le> 1/2"
    using fl_small [OF assms(4)] fl_small [OF assms(5)] .
  then have "interpolate p = p\<lparr>rp_x := tx, rp_y := ty\<rparr>"
    using assms(2,3) by (simp add: interpolate_def Let_def)
  then show ?thesis using assms(1) by (simp add: updatePlayerInterpolation_def)
qed


theorem interpolation_snaps_witness:
  "byId near_state ''7'' = Some near_player
   \<and> targetX near_player = Some 300 \<and> targetY near_player = Some 400
   \<and> \<bar>300 - rp_x near_player\<bar> = 1/4 \<and> \<bar>400 - rp_y near_player\<bar> = 0
   \<and> (\<exists>p'. byId (updatePlayerInterpolation near_state) ''7'' = Some p'
          \<and> rp_x p' = 300 \<and> rp_y p' = 400)"
proof -
  have h: "byId near_state ''7'' = Some near_player"
    "targetX near_player = Some 300" "targetY near_player = Some 400"
    "\<bar>300 - rp_x near_player\<bar> \<le> 1/2" "\<bar>400 - rp_y near_player\<bar> \<le> 1/2"
    by (simp_all add: near_state_def near_player_def)
  have v: "\<bar>300 - rp_x near_player\<bar> = 1/4" "\<bar>400 - rp_y near_player\<bar> = 0"
    by (simp_all add: near_player_def)
  from interpolation_snaps [OF h] h(1,2,3) v show ?thesis by simp
qed

end
